theory Spec2Isabelle
  imports Complex_Main
begin

section \<open>Matrix values\<close>

text \<open>
  The C structure \<^verbatim>\<open>Matrix\<close> holds two \<^verbatim>\<open>int\<close> dimensions and a pointer to a
  dense row-major array of \<^verbatim>\<open>double\<close>. The dimensions are modelled as natural
  numbers: the parser only produces values between 1 and \<^verbatim>\<open>MAX_ROWS_COLS\<close>, and every
  subtraction \<^verbatim>\<open>rows-1\<close> of the source is executed with a positive left operand or
  feeds loops that do not run. With dimensions of at most 2000 no index
  \<^verbatim>\<open>i*cols+j\<close> leaves the range of \<^verbatim>\<open>int\<close>, so the wrap-around of machine integers
  plays no part. The array is a list; the field is called \<open>vals\<close> because
  \<open>values\<close> is a reserved word of Isabelle. The theorems assume the invariant
  \<open>wf_matrix\<close> below, under which every array read of the algebra functions is
  within the array.

  The element type is a type variable. The algebra functions only use the arithmetic
  operations on it and no law of arithmetic, so every statement proved about them
  holds for any interpretation of \<open>+\<close>, \<open>-\<close>, \<open>*\<close>, \<open>/\<close>, in particular without
  assuming that addition is associative.
\<close>

record 'a matrix =
  rows :: nat
  cols :: nat
  vals :: "'a list"

text \<open>
  \<^verbatim>\<open>create_matrix\<close> allocates the structure and an array of \<open>rows * cols\<close> cells.
  \<^verbatim>\<open>malloc\<close> leaves the cells indeterminate; the model fills them with \<open>0\<close>. The
  callers overwrite every cell before the matrix is returned, which the theorems
  below establish by determining every entry of each result. Allocation is taken to
  succeed (\<^verbatim>\<open>exit_malloc_failed\<close> is not modelled).
\<close>

definition create_matrix :: "nat \<Rightarrow> nat \<Rightarrow> ('a::zero) matrix" where
  "create_matrix r c = \<lparr>rows = r, cols = c, vals = replicate (r * c) 0\<rparr>"

text \<open>The data model's invariant, and the row-major read \<open>A[i,j]\<close>.\<close>

definition wf_matrix :: "'a matrix \<Rightarrow> bool" where
  "wf_matrix m = (1 \<le> rows m \<and> 1 \<le> cols m \<and> length (vals m) = rows m * cols m)"

definition square :: "'a matrix \<Rightarrow> bool" where
  "square m = (rows m = cols m)"

definition elem :: "'a matrix \<Rightarrow> nat \<Rightarrow> nat \<Rightarrow> 'a" where
  "elem m i j = vals m ! (i * cols m + j)"

section \<open>Transpose\<close>

text \<open>
  \<^verbatim>\<open>get_transpose\<close>: the two \<^verbatim>\<open>for\<close> loops run over the columns and rows of the new
  matrix and store \<^verbatim>\<open>matrix->values[i*cols+j]\<close> at \<^verbatim>\<open>new_mat->values[j*new_cols+i]\<close>.
\<close>

definition get_transpose :: "('a::zero) matrix \<Rightarrow> 'a matrix" where
  "get_transpose m =
     (let new_mat = create_matrix (cols m) (rows m) in
      new_mat\<lparr>vals :=
        fold (\<lambda>i. fold (\<lambda>j vs. vs[j * cols new_mat + i := vals m ! (i * cols m + j)])
                       [0..<rows new_mat])
             [0..<cols new_mat] (vals new_mat)\<rparr>)"

section \<open>Failures\<close>

text \<open>
  The program reports a failure by printing to \<^verbatim>\<open>stderr\<close> and calling
  \<^verbatim>\<open>exit\<close> with a constant of the enumeration \<^verbatim>\<open>Error\<close>. A failure is a value:
  \<^item> \<open>Open_failed name\<close>: \<^verbatim>\<open>exit_open_failed\<close>;
  \<^item> \<open>Invalid_file name message line tok\<close>: \<^verbatim>\<open>exit_invalid_file\<close>, with the file
    name, the message, and the line number and token of the context that it prints
    (\<open>None\<close> is the null pointer);
  \<^item> \<open>Invalid_matrix message\<close>: the places that print a message and call
    \<^verbatim>\<open>exit(INVALID_MATRIX)\<close>;
  \<^item> \<open>Null_dereference\<close>: a null pointer handed to \<^verbatim>\<open>strtol\<close>, which the C
    standard leaves undefined.
\<close>

datatype Error =
  NO_ERROR | INCORRECT_ARGUMENTS | MEMORY_ERROR | FILE_OPEN_ERROR | INVALID_FILE | INVALID_MATRIX

datatype failure =
  Open_failed string
| Invalid_file string string int "string option"
| Invalid_matrix string
| Null_dereference

fun exit_code :: "failure \<Rightarrow> Error option" where
  "exit_code (Open_failed name) = Some FILE_OPEN_ERROR"
| "exit_code (Invalid_file name message line tok) = Some INVALID_FILE"
| "exit_code (Invalid_matrix message) = Some INVALID_MATRIX"
| "exit_code Null_dereference = None"

section \<open>Product\<close>

text \<open>
  \<^verbatim>\<open>get_product\<close>: three loops; the accumulator \<^verbatim>\<open>sum\<close> is declared outside them,
  starts at \<open>0\<close> and is reset to \<open>0\<close> after each store. The function compares no
  dimensions.
\<close>

definition get_product :: "('a::{zero,plus,times}) matrix \<Rightarrow> 'a matrix \<Rightarrow> 'a matrix" where
  "get_product matrix1 matrix2 =
     (let new_mat = create_matrix (rows matrix1) (cols matrix2) in
      new_mat\<lparr>vals := snd
        (fold (\<lambda>k. fold (\<lambda>i (sum, vs).
                 let sum' = fold (\<lambda>j sum. sum + vals matrix1 ! (k * cols matrix1 + j)
                                               * vals matrix2 ! (j * cols matrix2 + i))
                                 [0..<cols matrix1] sum
                 in (0, vs[k * cols new_mat + i := sum']))
               [0..<cols new_mat])
           [0..<rows new_mat] (0, vals new_mat))\<rparr>)"

text \<open>
  \<^verbatim>\<open>product\<close>, between reading its two operands and writing the result: the shape
  check, and the automatic swap of the operands. The boolean of the result says
  whether the message about the swapped input order was printed.
\<close>

definition product :: "('a::{zero,plus,times}) matrix \<Rightarrow> 'a matrix \<Rightarrow> failure + bool \<times> 'a matrix" where
  "product a b =
     (if cols a \<noteq> rows b \<and> cols b \<noteq> rows a then
        Inl (Invalid_matrix ''It is not possible to find the matrix product of these two matrices.'')
      else if cols a \<noteq> rows b \<and> cols b = rows a then Inr (True, get_product b a)
      else Inr (False, get_product a b))"

text \<open>
  The sum of a sequence of terms as the C code forms it: starting from \<open>0\<close>, each
  term is added on the right, in order.
\<close>

definition accumulate :: "('a::{zero,plus}) list \<Rightarrow> 'a" where
  "accumulate xs = foldl (+) 0 xs"

section \<open>Determinant\<close>

text \<open>
  \<^verbatim>\<open>find_det\<close>: a 2 by 2 matrix is the base case. Otherwise one buffer
  \<^verbatim>\<open>sub_mat\<close> is allocated and, for every column \<^verbatim>\<open>top_row\<close> of the first row, filled
  from position \<open>k = 0\<close> with the entries of rows \<open>1..\<close> outside that column; the
  recursive call on the buffer is multiplied by \<^verbatim>\<open>pow(-1, top_row)\<close> and the first-row
  entry and added to \<^verbatim>\<open>det\<close>. The buffer is reused from one column to the next, so
  the loop state is the pair of its contents and \<^verbatim>\<open>det\<close>. \<^verbatim>\<open>pow(-1, n)\<close> is the \<open>n\<close>-th
  power of \<open>-1\<close>.
\<close>

function find_det :: "('a::{zero,plus,minus,uminus,power}) matrix \<Rightarrow> 'a" where
  "find_det m =
     (if rows m = 2 then vals m ! 0 * vals m ! 3 - vals m ! 1 * vals m ! 2
      else
        let sub_mat = create_matrix (rows m - 1) (cols m - 1) in
        snd (fold (\<lambda>top_row (sub_vals, det).
               let sub_vals' = snd
                     (fold (\<lambda>i. fold (\<lambda>j (k, vs).
                              if j \<noteq> top_row then (k + 1, vs[k := vals m ! (i * cols m + j)])
                              else (k, vs))
                            [0..<cols m])
                        [1..<rows m] (0, sub_vals))
               in (sub_vals',
                   det + (- 1) ^ top_row * vals m ! top_row
                         * find_det (sub_mat\<lparr>vals := sub_vals'\<rparr>)))
             [0..<cols m] (vals sub_mat, 0)))"
  by pat_completeness auto
termination
  by (relation "measure cols") (auto simp: create_matrix_def)

declare find_det.simps [simp del]

text \<open>\<^verbatim>\<open>get_determinant\<close>: the single element of a 1 by 1 matrix, else \<^verbatim>\<open>find_det\<close>.\<close>

definition get_determinant :: "('a::{zero,plus,minus,uminus,power}) matrix \<Rightarrow> 'a" where
  "get_determinant m = (if rows m = 1 then vals m ! 0 else find_det m)"

section \<open>Cofactors, adjoint, inverse\<close>

text \<open>
  \<^verbatim>\<open>find_cofactor\<close>: for every position \<open>(i, j)\<close> a fresh buffer \<^verbatim>\<open>minor_mat\<close> is
  filled from \<open>k = 0\<close> with the entries outside row \<open>i\<close> and column \<open>j\<close>, and
  \<^verbatim>\<open>pow(-1, i+j) * get_determinant(minor_mat)\<close> is stored at \<open>(i, j)\<close>.
\<close>

definition find_cofactor :: "('a::{zero,plus,minus,uminus,power}) matrix \<Rightarrow> 'a matrix" where
  "find_cofactor m =
     (let new_mat = create_matrix (rows m) (cols m) in
      new_mat\<lparr>vals :=
        fold (\<lambda>i. fold (\<lambda>j vs.
                 let minor_mat = create_matrix (rows m - 1) (cols m - 1);
                     minor_vals = snd
                       (fold (\<lambda>m'. fold (\<lambda>n (k, mv).
                                if n \<noteq> j \<and> m' \<noteq> i
                                then (k + 1, mv[k := vals m ! (m' * cols m + n)])
                                else (k, mv))
                              [0..<cols m])
                          [0..<rows m] (0, vals minor_mat));
                     cofactor = (- 1) ^ (i + j)
                                * get_determinant (minor_mat\<lparr>vals := minor_vals\<rparr>)
                 in vs[i * cols new_mat + j := cofactor])
               [0..<cols m])
           [0..<rows m] (vals new_mat)\<rparr>)"

text \<open>
  \<^verbatim>\<open>get_adjoint\<close>: for a matrix of one row, a fresh matrix of the same dimensions
  whose cell \<open>0\<close> is set to \<open>1\<close>; otherwise the transpose of the cofactor matrix.
\<close>

definition get_adjoint :: "('a::{zero,plus,minus,uminus,power}) matrix \<Rightarrow> 'a matrix" where
  "get_adjoint m =
     (if rows m = 1 then
        (let adj_mat = create_matrix (rows m) (cols m) in adj_mat\<lparr>vals := (vals adj_mat)[0 := 1]\<rparr>)
      else get_transpose (find_cofactor m))"

text \<open>
  \<^verbatim>\<open>get_inverse\<close>: the determinant is compared with \<open>0\<close> first; on equality the
  program prints its message and exits with \<^verbatim>\<open>INVALID_MATRIX\<close>. Otherwise every
  entry of the adjoint is divided by the determinant.
\<close>

definition get_inverse ::
  "('a::{zero,plus,minus,uminus,power,inverse}) matrix \<Rightarrow> failure + 'a matrix" where
  "get_inverse m =
     (let det = get_determinant m in
      if det = 0 then
        Inl (Invalid_matrix
          ''The determinant is 0, so the inverse of the matrix could not be found.'')
      else
        let adj_mat = get_adjoint m;
            inv_mat = create_matrix (rows m) (cols m)
        in Inr (inv_mat\<lparr>vals :=
             fold (\<lambda>i. fold (\<lambda>j vs.
                      vs[i * cols inv_mat + j := vals adj_mat ! (i * cols adj_mat + j) / det])
                    [0..<cols m])
                [0..<rows m] (vals inv_mat)\<rparr>))"

section \<open>Minors, as the specification words them\<close>

text \<open>
  The minor of \<open>A\<close> at \<open>(i, j)\<close>: the matrix formed by deleting row \<open>i\<close> and column
  \<open>j\<close>. Its rows are the rows \<open>r \<noteq> i\<close> of \<open>A\<close> in order, each holding the entries
  \<open>A[r,c]\<close> of the columns \<open>c \<noteq> j\<close> in order. This definition is not taken from
  the code; the loops of \<^verbatim>\<open>find_det\<close> and \<^verbatim>\<open>find_cofactor\<close> are proved to build it.
\<close>

definition minor :: "'a matrix \<Rightarrow> nat \<Rightarrow> nat \<Rightarrow> 'a matrix" where
  "minor A i j =
     \<lparr>rows = rows A - 1, cols = cols A - 1,
      vals = concat (map (\<lambda>r. map (\<lambda>c. elem A r c) (filter (\<lambda>c. c \<noteq> j) [0..<cols A]))
                         (filter (\<lambda>r. r \<noteq> i) [0..<rows A]))\<rparr>"

section \<open>The C library functions the parser calls\<close>

text \<open>
  The constants of the source.
\<close>

definition MAX_LINE_LENGTH :: nat where "MAX_LINE_LENGTH = 40000"

definition MAX_ROWS_COLS :: int where "MAX_ROWS_COLS = 2000"

definition TOKEN_SEPARATORS :: string where
  "TOKEN_SEPARATORS = [CHR '' '', CHR 0x09, CHR 0x0D, CHR 0x0A]"

text \<open>
  Modelled from the spec: \<^verbatim>\<open>fgets\<close>, \<^verbatim>\<open>strtok\<close>, \<^verbatim>\<open>strtol\<close> and \<^verbatim>\<open>strtod\<close> belong
  to the C library, not to the repository; they are written here from their
  description in the C standard (ISO C99, 7.19.7.2, 7.21.5.8, 7.20.1.4, 7.20.1.3), in
  the "C" locale, which the program never changes.

  A stream is the list of the characters not read yet. \<^verbatim>\<open>fgets(line, n, f)\<close> returns
  the null pointer when no character is left; otherwise it reads characters until
  \<open>n - 1\<close> have been read or a newline has been read and kept, whichever comes
  first. The result is the line read and the rest of the stream. Read errors are
  not modelled.
\<close>

fun fgets_chars :: "nat \<Rightarrow> string \<Rightarrow> string \<times> string" where
  "fgets_chars n [] = ([], [])"
| "fgets_chars n (c # s) =
     (if n = 0 then ([], c # s)
      else if c = CHR 0x0A then ([c], s)
      else (case fgets_chars (n - 1) s of (l, r) \<Rightarrow> (c # l, r)))"

definition fgets :: "nat \<Rightarrow> string \<Rightarrow> (string \<times> string) option" where
  "fgets n stream = (if stream = [] then None else Some (fgets_chars (n - 1) stream))"

text \<open>
  The array filled by \<^verbatim>\<open>fgets\<close> is read as a C string, which ends at the first null
  character.
\<close>

definition c_string :: "string \<Rightarrow> string" where
  "c_string line = takeWhile (\<lambda>c. c \<noteq> CHR 0x00) line"

text \<open>
  \<^verbatim>\<open>strtok\<close> skips the separators at the start; if nothing is left it returns the
  null pointer. Otherwise the token runs to the next separator, which is overwritten
  with a null character, and the scan position saved for the next call is the
  character after it. The function is given the string to scan (the new line, or the
  saved position when the C argument is \<^verbatim>\<open>NULL\<close>) and returns the token and the
  position to save.
\<close>

definition strtok :: "string \<Rightarrow> string \<Rightarrow> string option \<times> string" where
  "strtok s delim =
     (let s1 = dropWhile (\<lambda>c. c \<in> set delim) s in
      if s1 = [] then (None, [])
      else (Some (takeWhile (\<lambda>c. c \<notin> set delim) s1),
            drop 1 (dropWhile (\<lambda>c. c \<notin> set delim) s1)))"

definition isspace :: "char \<Rightarrow> bool" where
  "isspace c = (c \<in> set [CHR '' '', CHR 0x09, CHR 0x0A, CHR 0x0B, CHR 0x0C, CHR 0x0D])"

definition isdigit :: "char \<Rightarrow> bool" where
  "isdigit c = (c \<in> set ''0123456789'')"

definition isxdigit :: "char \<Rightarrow> bool" where
  "isxdigit c = (c \<in> set ''0123456789abcdefABCDEF'')"

definition isalpha :: "char \<Rightarrow> bool" where
  "isalpha c = (c \<in> set ''abcdefghijklmnopqrstuvwxyzABCDEFGHIJKLMNOPQRSTUVWXYZ'')"

definition tolower :: "char \<Rightarrow> char" where
  "tolower c = (if c \<in> set ''ABCDEFGHIJKLMNOPQRSTUVWXYZ''
                then char_of (of_char c + (32 :: nat)) else c)"

definition xdigit_val :: "char \<Rightarrow> nat" where
  "xdigit_val c =
     (if isdigit c then of_char c - 48
      else if c \<in> set ''abcdef'' then of_char c - 87
      else of_char c - 55)"

definition digits_val :: "nat \<Rightarrow> string \<Rightarrow> nat" where
  "digits_val base ds = foldl (\<lambda>a c. base * a + xdigit_val c) 0 ds"

text \<open>An optional sign: whether it is a minus, and the string after it.\<close>

definition take_sign :: "string \<Rightarrow> bool \<times> string" where
  "take_sign s =
     (case s of
        [] \<Rightarrow> (False, [])
      | c # r \<Rightarrow> if c = CHR ''-'' then (True, r) else if c = CHR ''+'' then (False, r)
                 else (False, s))"

text \<open>
  \<^verbatim>\<open>strtol(token, &end_ptr, 10)\<close>: white space, an optional sign, decimal digits. The
  value and the rest of the string are returned; without a digit no conversion is
  made, the value is \<open>0\<close> and \<^verbatim>\<open>end_ptr\<close> is the start of the string. A value outside
  the range of \<^verbatim>\<open>long\<close> (64 bits) is replaced by the nearest bound.
\<close>

definition strtol :: "string \<Rightarrow> int \<times> string" where
  "strtol s =
     (let (neg, s2) = take_sign (dropWhile isspace s);
          ds = takeWhile isdigit s2
      in if ds = [] then (0, s)
         else
           let v = (if neg then - int (digits_val 10 ds) else int (digits_val 10 ds))
           in (max (- (2 ^ 63)) (min (2 ^ 63 - 1) v), dropWhile isdigit s2))"

text \<open>
  A \<^verbatim>\<open>double\<close> as \<^verbatim>\<open>strtod\<close> delivers it: a finite number, an infinity or a NaN. For a
  finite literal the model keeps the exact value that the characters denote;
  \<^verbatim>\<open>strtod\<close> returns the \<^verbatim>\<open>double\<close> nearest to it, and this rounding (with overflow
  and the sign of zero) is left out.
\<close>

datatype double = Finite real | PlusInfinity | MinusInfinity | NaN

instantiation double :: zero
begin

definition zero_double :: double where "zero_double = Finite 0"

instance ..

end

definition scale :: "nat \<Rightarrow> nat \<Rightarrow> int \<Rightarrow> real" where
  "scale m b e = (if 0 \<le> e then real m * real b ^ nat e else real m / real b ^ nat (- e))"

text \<open>
  An exponent part: the letter \<open>e\<close> (or \<open>p\<close>), an optional sign and at least one
  decimal digit. When the digits are missing, nothing is consumed.
\<close>

definition exponent_part :: "string \<Rightarrow> string \<Rightarrow> int \<times> string" where
  "exponent_part letters s =
     (case s of
        [] \<Rightarrow> (0, s)
      | c # r \<Rightarrow>
          if c \<in> set letters then
            (let (neg, r2) = take_sign r; ds = takeWhile isdigit r2
             in if ds = [] then (0, s)
                else ((if neg then - int (digits_val 10 ds) else int (digits_val 10 ds)),
                      dropWhile isdigit r2))
          else (0, s))"

text \<open>
  A mantissa in the given base: digits, optionally containing one radix character,
  with at least one digit in all. The result is the digits before and after the
  point and the rest.
\<close>

definition mantissa :: "(char \<Rightarrow> bool) \<Rightarrow> string \<Rightarrow> (string \<times> string \<times> string) option" where
  "mantissa is_digit s =
     (let ip = takeWhile is_digit s; r1 = dropWhile is_digit s;
          (fp, r2) = (case r1 of
                        [] \<Rightarrow> ([], r1)
                      | c # r \<Rightarrow> if c = CHR ''.''
                                 then (takeWhile is_digit r, dropWhile is_digit r)
                                 else ([], r1))
      in if ip = [] \<and> fp = [] then None else Some (ip, fp, r2))"

definition decimal_float :: "string \<Rightarrow> (real \<times> string) option" where
  "decimal_float s =
     (case mantissa isdigit s of
        None \<Rightarrow> None
      | Some (ip, fp, r) \<Rightarrow>
          (let (e, rest) = exponent_part ''eE'' r
           in Some (scale (digits_val 10 (ip @ fp)) 10 (e - int (length fp)), rest)))"

definition hex_float :: "string \<Rightarrow> (real \<times> string) option" where
  "hex_float s =
     (if map tolower (take 2 s) = ''0x'' then
        (case mantissa isxdigit (drop 2 s) of
           None \<Rightarrow> None
         | Some (ip, fp, r) \<Rightarrow>
             (let (e, rest) = exponent_part ''pP'' r
              in Some (scale (digits_val 16 (ip @ fp)) 2 (e - 4 * int (length fp)), rest)))
      else None)"

definition infinity_word :: "string \<Rightarrow> string option" where
  "infinity_word s =
     (if map tolower (take 8 s) = ''infinity'' then Some (drop 8 s)
      else if map tolower (take 3 s) = ''inf'' then Some (drop 3 s)
      else None)"

definition nan_word :: "string \<Rightarrow> string option" where
  "nan_word s =
     (if map tolower (take 3 s) = ''nan'' then
        (let r = drop 3 s;
             body = takeWhile (\<lambda>c. isdigit c \<or> isalpha c \<or> c = CHR ''_'') (drop 1 r);
             after = drop (length body) (drop 1 r)
         in if take 1 r = ''('' \<and> take 1 after = '')'' then Some (drop 1 after) else Some r)
      else None)"

text \<open>
  \<^verbatim>\<open>strtod(token, &end_ptr)\<close>: white space, an optional sign, then the longest prefix
  that is a hexadecimal floating constant, a decimal floating constant,
  \<^verbatim>\<open>INF\<close> or \<^verbatim>\<open>INFINITY\<close>, or \<^verbatim>\<open>NAN\<close> with an optional parenthesised character
  sequence, letters in either case. When there is none, no conversion is made: the
  value is zero and \<^verbatim>\<open>end_ptr\<close> is the start of the string.
\<close>

definition strtod :: "string \<Rightarrow> double \<times> string" where
  "strtod s =
     (let (neg, s2) = take_sign (dropWhile isspace s) in
      case hex_float s2 of
        Some (v, rest) \<Rightarrow> (Finite (if neg then - v else v), rest)
      | None \<Rightarrow>
     (case decimal_float s2 of
        Some (v, rest) \<Rightarrow> (Finite (if neg then - v else v), rest)
      | None \<Rightarrow>
     (case infinity_word s2 of
        Some rest \<Rightarrow> (if neg then MinusInfinity else PlusInfinity, rest)
      | None \<Rightarrow>
     (case nan_word s2 of
        Some rest \<Rightarrow> (NaN, rest)
      | None \<Rightarrow> (Finite 0, s)))))"

section \<open>The parser\<close>

text \<open>
  The structure \<^verbatim>\<open>Context\<close>: the open file (the characters not read yet; the field is
  written \<open>file'\<close>, \<open>file\<close> being a reserved word), its name,
  the most recent token (\<open>None\<close> is the null pointer) and the line number. The
  last field is not part of the C structure: it is the scan position that \<^verbatim>\<open>strtok\<close>
  keeps between calls.

  The line number is a C \<^verbatim>\<open>int\<close>; it is modelled as an integer, and its overflow is
  left out.
\<close>

record Context =
  file' :: string
  file_name :: string
  token :: "string option"
  line_number :: int
  strtok_save :: string

text \<open>
  \<^verbatim>\<open>exit_invalid_file\<close> prints the file name and the message, then the line number and
  the token of the context, and exits with \<^verbatim>\<open>INVALID_FILE\<close>.
\<close>

definition exit_invalid_file :: "Context \<Rightarrow> string \<Rightarrow> failure + 'a" where
  "exit_invalid_file c message =
     Inl (Invalid_file (file_name c) message (line_number c) (token c))"

text \<open>
  \<^verbatim>\<open>read_line\<close> increments the line number, reads with \<^verbatim>\<open>fgets\<close>, exits with an empty
  message when \<^verbatim>\<open>fgets\<close> returns the null pointer, takes the first token of the line
  and calls itself when there is none or it begins with \<open>#\<close>. It returns the token
  of the context, which is not null when it returns.
\<close>

function read_line :: "Context \<Rightarrow> failure + string \<times> Context" where
  "read_line c =
     (let c1 = c\<lparr>line_number := line_number c + 1\<rparr> in
      case fgets MAX_LINE_LENGTH (file' c1) of
        None \<Rightarrow> exit_invalid_file c1 []
      | Some (line, rest) \<Rightarrow>
          (case strtok (c_string line) TOKEN_SEPARATORS of
             (tok, save) \<Rightarrow>
               (let c2 = c1\<lparr>file' := rest, token := tok, strtok_save := save\<rparr> in
                case tok of
                  None \<Rightarrow> read_line c2
                | Some t \<Rightarrow> if take 1 t = ''#'' then read_line c2 else Inr (t, c2))))"
  by pat_completeness auto
termination
proof (relation "measure (\<lambda>c. length (file' c))")
  have chars: "length l + length r = length s \<and> (0 < n \<and> s \<noteq> [] \<longrightarrow> l \<noteq> [])"
    if "fgets_chars n s = (l, r)" for n s l r
    using that
    by (induction n s arbitrary: l r rule: fgets_chars.induct)
       (auto split: if_splits prod.splits)
  have shorter: "length r < length s" if "fgets MAX_LINE_LENGTH s = Some (l, r)" for s l r
  proof -
    from that have s: "s \<noteq> []" and f: "fgets_chars 39999 s = (l, r)"
      by (auto simp: fgets_def MAX_LINE_LENGTH_def split: if_splits)
    from chars [OF f] s have "length l + length r = length s" "l \<noteq> []" by simp_all
    then show ?thesis by (cases l) simp_all
  qed
  show "wf (measure (\<lambda>c. length (file' c)))" by simp
  show "(c2, c) \<in> measure (\<lambda>c. length (file' c))"
    if "c1 = c\<lparr>line_number := line_number c + 1\<rparr>"
      "fgets MAX_LINE_LENGTH (file' c1) = Some p" "(line, rest) = p"
      "c2 = c1\<lparr>file' := rest, token := tok, strtok_save := save\<rparr>"
    for c c1 p line rest tok save c2
  proof -
    from that(2,3) have "fgets MAX_LINE_LENGTH (file' c1) = Some (line, rest)" by simp
    from shorter [OF this] that(1,4) show ?thesis by simp
  qed
  then show "(c2, c) \<in> measure (\<lambda>c. length (file' c))"
    if "c1 = c\<lparr>line_number := line_number c + 1\<rparr>"
      "fgets MAX_LINE_LENGTH (file' c1) = Some p" "(line, rest) = p"
      "c2 = c1\<lparr>file' := rest, token := tok, strtok_save := save\<rparr>"
    for c c1 p line rest tok save c2
    using that by blast
qed

declare read_line.simps [simp del]

text \<open>\<^verbatim>\<open>get_new_token\<close>: the next token of the current line, stored in the context.\<close>

definition get_new_token :: "Context \<Rightarrow> string option \<times> Context" where
  "get_new_token c =
     (case strtok (strtok_save c) TOKEN_SEPARATORS of
        (tok, save) \<Rightarrow> (tok, c\<lparr>token := tok, strtok_save := save\<rparr>))"

text \<open>
  \<^verbatim>\<open>get_int\<close>: the token is handed to \<^verbatim>\<open>strtol\<close> without a null check. Characters
  left after the number, or a value below 1, give the first message; a value above
  \<^verbatim>\<open>MAX_ROWS_COLS\<close> the second.
\<close>

definition get_int :: "string option \<Rightarrow> Context \<Rightarrow> failure + nat" where
  "get_int tok c =
     (case tok of
        None \<Rightarrow> Inl Null_dereference
      | Some t \<Rightarrow>
          (case strtol t of
             (v, end_ptr) \<Rightarrow>
               if end_ptr \<noteq> [] \<or> v < 1 then
                 exit_invalid_file c ''Stated rows or columns are invalid.''
               else if v > MAX_ROWS_COLS then
                 exit_invalid_file c
                   ''Rows or columns of the matrix are bigger than the maximum value allowed.''
               else Inr (nat v)))"

text \<open>
  \<^verbatim>\<open>get_double\<close>: the token is accepted when \<^verbatim>\<open>strtod\<close> leaves no character of it. The
  matrix is passed only to be freed before the exit.
\<close>

definition get_double :: "string \<Rightarrow> double matrix \<Rightarrow> Context \<Rightarrow> failure + double" where
  "get_double t matrix c =
     (case strtod t of
        (v, end_ptr) \<Rightarrow>
          if end_ptr \<noteq> [] then exit_invalid_file c ''Matrix element is invalid.''
          else Inr v)"

text \<open>
  \<^verbatim>\<open>read_rows_cols\<close>: the first token must be \<open>matrix\<close> (otherwise the exit has an
  empty message); two numbers follow; the next token must be absent or begin with
  \<open>#\<close>.
\<close>

definition read_rows_cols :: "string \<Rightarrow> Context \<Rightarrow> failure + nat \<times> nat \<times> Context" where
  "read_rows_cols tok c =
     (if tok \<noteq> ''matrix'' then exit_invalid_file c []
      else
        (case get_new_token c of (tok1, c1) \<Rightarrow>
        (case get_int tok1 c1 of Inl e \<Rightarrow> Inl e | Inr r \<Rightarrow>
        (case get_new_token c1 of (tok2, c2) \<Rightarrow>
        (case get_int tok2 c2 of Inl e \<Rightarrow> Inl e | Inr n \<Rightarrow>
        (case get_new_token c2 of (tok3, c3) \<Rightarrow>
          if tok3 \<noteq> None \<and> take 1 (the tok3) \<noteq> ''#'' then
            exit_invalid_file c3 ''There are unexpected characters in the file.''
          else Inr (r, n, c3)))))))"

text \<open>
  \<^verbatim>\<open>read_array\<close>: the inner loop over the columns \<open>j\<close> of row \<open>i\<close>, then the loop over
  the rows, each of which starts by reading a line.
\<close>

fun read_array_cols ::
  "nat list \<Rightarrow> nat \<Rightarrow> string option \<Rightarrow> double matrix \<Rightarrow> Context \<Rightarrow>
   failure + string option \<times> double matrix \<times> Context" where
  "read_array_cols [] i tok matrix c = Inr (tok, matrix, c)"
| "read_array_cols (j # js) i tok matrix c =
     (case tok of
        None \<Rightarrow> exit_invalid_file c ''Number of stated columns does not match file.''
      | Some t \<Rightarrow>
          if t = ''end'' then
            exit_invalid_file c ''Number of stated rows does not match file.''
          else
            (case get_double t matrix c of
               Inl e \<Rightarrow> Inl e
             | Inr v \<Rightarrow>
                 (case get_new_token c of
                    (tok', c') \<Rightarrow>
                      read_array_cols js i tok'
                        (matrix\<lparr>vals := (vals matrix)[i * cols matrix + j := v]\<rparr>) c')))"

fun read_array_rows ::
  "nat list \<Rightarrow> double matrix \<Rightarrow> Context \<Rightarrow> failure + double matrix \<times> Context" where
  "read_array_rows [] matrix c = Inr (matrix, c)"
| "read_array_rows (i # is) matrix c =
     (case read_line c of
        Inl e \<Rightarrow> Inl e
      | Inr (t, c1) \<Rightarrow>
          (case read_array_cols [0..<cols matrix] i (Some t) matrix c1 of
             Inl e \<Rightarrow> Inl e
           | Inr (tok, matrix', c2) \<Rightarrow>
               if tok \<noteq> None \<and> take 1 (the tok) \<noteq> ''#'' then
                 exit_invalid_file c2 ''Unexpected characters in the file.''
               else read_array_rows is matrix' c2))"

definition read_array :: "double matrix \<Rightarrow> Context \<Rightarrow> failure + double matrix \<times> Context" where
  "read_array matrix c = read_array_rows [0..<rows matrix] matrix c"

text \<open>\<^verbatim>\<open>read_file_end\<close>: the next significant line must be \<open>end\<close>, alone or before a comment.\<close>

definition read_file_end :: "double matrix \<Rightarrow> Context \<Rightarrow> failure + Context" where
  "read_file_end matrix c =
     (case read_line c of
        Inl e \<Rightarrow> Inl e
      | Inr (t, c1) \<Rightarrow>
          if t \<noteq> ''end'' then exit_invalid_file c1 ''Could not find the end of the file.''
          else
            (case get_new_token c1 of
               (tok, c2) \<Rightarrow>
                 if tok \<noteq> None \<and> take 1 (the tok) \<noteq> ''#'' then
                   exit_invalid_file c2 ''Unexpected characters in the file.''
                 else Inr c2))"

text \<open>
  \<^verbatim>\<open>read_matrix\<close>. The file system is a map from names to contents; a name outside
  its domain cannot be opened. The structure \<^verbatim>\<open>file_context\<close> is declared without an
  initialiser and only its fields \<^verbatim>\<open>file\<close> and \<^verbatim>\<open>file_name\<close> are assigned, so its
  token and its line number start with whatever the stack holds: the argument
  \<open>uninit\<close>. The message \<^verbatim>\<open>Processing file...\<close> on the standard output is left out.
\<close>

definition read_matrix ::
  "(string \<rightharpoonup> string) \<Rightarrow> string \<Rightarrow> Context \<Rightarrow> failure + double matrix" where
  "read_matrix fs name uninit =
     (case fs name of
        None \<Rightarrow> Inl (Open_failed name)
      | Some contents \<Rightarrow>
          (let file_context = uninit\<lparr>file' := contents, file_name := name\<rparr> in
           (case read_line file_context of Inl e \<Rightarrow> Inl e | Inr (tok, c1) \<Rightarrow>
           (case read_rows_cols tok c1 of Inl e \<Rightarrow> Inl e | Inr (r, n, c2) \<Rightarrow>
           (case read_array (create_matrix r n) c2 of Inl e \<Rightarrow> Inl e | Inr (matrix, c3) \<Rightarrow>
           (case read_file_end matrix c3 of Inl e \<Rightarrow> Inl e | Inr c4 \<Rightarrow> Inr matrix))))))"

section \<open>The arithmetic of \<^verbatim>\<open>double\<close>\<close>

text \<open>
  Modelled from the spec: the operations \<^verbatim>\<open>+\<close>, \<^verbatim>\<open>-\<close>, \<^verbatim>\<open>*\<close> and \<^verbatim>\<open>/\<close> on \<^verbatim>\<open>double\<close> and
  the function \<^verbatim>\<open>pow\<close> belong to the C implementation, not to the repository; they are
  written here from IEC 60559, to which Annex F of ISO C99 binds \<^verbatim>\<open>double\<close>.

  The operations on infinities and NaN are those of the standard, and a finite
  result whose magnitude reaches \<open>2^1024 - 2^970\<close>, the least that rounding to
  nearest takes beyond the largest \<^verbatim>\<open>double\<close>, is the infinity of its sign. Below
  that bound a finite result is kept exact: its rounding to 53 bits, underflow and
  the sign of zero are left out (a non-zero number divided by zero gives the
  infinity of the sign of the dividend). \<^verbatim>\<open>pow(-1, n)\<close> is the \<open>n\<close>-fold product of
  \<open>-1\<close>, which is exact. The comparison \<^verbatim>\<open>det == 0\<close> of \<^verbatim>\<open>get_inverse\<close> is the
  equality with the number \<open>0\<close>, false of an infinity and of a NaN.
\<close>

definition DBL_OVERFLOW :: real where
  "DBL_OVERFLOW = 2 ^ 1024 - 2 ^ 970"

definition overflow :: "real \<Rightarrow> double" where
  "overflow r =
     (if DBL_OVERFLOW \<le> r then PlusInfinity
      else if r \<le> - DBL_OVERFLOW then MinusInfinity
      else Finite r)"

instantiation double :: "{one, plus, minus, uminus, times, divide, inverse, power}"
begin

definition one_double :: double where "one_double = Finite 1"

fun uminus_double :: "double \<Rightarrow> double" where
  "uminus_double (Finite a) = Finite (- a)"
| "uminus_double PlusInfinity = MinusInfinity"
| "uminus_double MinusInfinity = PlusInfinity"
| "uminus_double NaN = NaN"

fun plus_double :: "double \<Rightarrow> double \<Rightarrow> double" where
  "plus_double (Finite a) (Finite b) = overflow (a + b)"
| "plus_double NaN y = NaN"
| "plus_double x NaN = NaN"
| "plus_double PlusInfinity MinusInfinity = NaN"
| "plus_double MinusInfinity PlusInfinity = NaN"
| "plus_double PlusInfinity y = PlusInfinity"
| "plus_double x PlusInfinity = PlusInfinity"
| "plus_double MinusInfinity y = MinusInfinity"
| "plus_double x MinusInfinity = MinusInfinity"

definition minus_double :: "double \<Rightarrow> double \<Rightarrow> double" where
  "minus_double x y = x + (- y)"

fun times_double :: "double \<Rightarrow> double \<Rightarrow> double" where
  "times_double (Finite a) (Finite b) = overflow (a * b)"
| "times_double NaN y = NaN"
| "times_double x NaN = NaN"
| "times_double (Finite a) PlusInfinity =
     (if a = 0 then NaN else if 0 < a then PlusInfinity else MinusInfinity)"
| "times_double (Finite a) MinusInfinity =
     (if a = 0 then NaN else if 0 < a then MinusInfinity else PlusInfinity)"
| "times_double PlusInfinity (Finite b) =
     (if b = 0 then NaN else if 0 < b then PlusInfinity else MinusInfinity)"
| "times_double MinusInfinity (Finite b) =
     (if b = 0 then NaN else if 0 < b then MinusInfinity else PlusInfinity)"
| "times_double PlusInfinity PlusInfinity = PlusInfinity"
| "times_double PlusInfinity MinusInfinity = MinusInfinity"
| "times_double MinusInfinity PlusInfinity = MinusInfinity"
| "times_double MinusInfinity MinusInfinity = PlusInfinity"

fun divide_double :: "double \<Rightarrow> double \<Rightarrow> double" where
  "divide_double (Finite a) (Finite b) =
     (if b = 0 then (if a = 0 then NaN else if 0 < a then PlusInfinity else MinusInfinity)
      else overflow (a / b))"
| "divide_double NaN y = NaN"
| "divide_double x NaN = NaN"
| "divide_double (Finite a) PlusInfinity = Finite 0"
| "divide_double (Finite a) MinusInfinity = Finite 0"
| "divide_double PlusInfinity (Finite b) = (if 0 \<le> b then PlusInfinity else MinusInfinity)"
| "divide_double MinusInfinity (Finite b) = (if 0 \<le> b then MinusInfinity else PlusInfinity)"
| "divide_double PlusInfinity PlusInfinity = NaN"
| "divide_double PlusInfinity MinusInfinity = NaN"
| "divide_double MinusInfinity PlusInfinity = NaN"
| "divide_double MinusInfinity MinusInfinity = NaN"

definition inverse_double :: "double \<Rightarrow> double" where
  "inverse_double x = Finite 1 div x"

instance ..

end




section \<open>Determinants of arrays of numbers\<close>

text \<open>
  The determinant of the \<open>n\<close> by \<open>n\<close> array of numbers \<open>a\<close>, by expansion along the
  first row, and the array with row \<open>i\<close> and column \<open>j\<close> deleted. These are notions of
  the proofs about the inverse, over a commutative ring; they are not functions of
  the program.
\<close>

definition skip :: "nat \<Rightarrow> nat \<Rightarrow> nat" where
  "skip i r = (if r < i then r else Suc r)"

definition unskip :: "nat \<Rightarrow> nat \<Rightarrow> nat" where
  "unskip i r = (if r < i then r else r - 1)"





section \<open>Loops that store into an array\<close>

lemma fold_nested_product:
  "fold (\<lambda>i. fold (\<lambda>j. h i j) js) is s = fold (\<lambda>(i, j). h i j) (List.product is js) s"
proof (induction "is" arbitrary: s)
  case Nil
  show ?case by simp
next
  case (Cons i "is")
  have "fold (\<lambda>(i, j). h i j) (map (Pair i) js) s = fold (h i) js s"
    by (simp add: fold_map comp_def)
  with Cons show ?case by simp
qed

lemma length_fold_update:
  "length (fold (\<lambda>x vs. vs[f x := g x]) xs vs) = length vs"
  by (induction xs arbitrary: vs) simp_all

lemma fold_update_other:
  "k \<notin> f ` set xs \<Longrightarrow> fold (\<lambda>x vs. vs[f x := g x]) xs vs ! k = vs ! k"
  by (induction xs arbitrary: vs) auto

lemma fold_update_nth:
  "distinct (map f xs) \<Longrightarrow> x \<in> set xs \<Longrightarrow> f x < length vs \<Longrightarrow>
   fold (\<lambda>x vs. vs[f x := g x]) xs vs ! f x = g x"
proof (induction xs arbitrary: vs)
  case Nil
  then show ?case by simp
next
  case (Cons y ys)
  show ?case
  proof (cases "x = y")
    case True
    with Cons.prems have "f x \<notin> f ` set ys" by auto
    then have "fold (\<lambda>x vs. vs[f x := g x]) ys (vs[f y := g y]) ! f x = vs[f y := g y] ! f x"
      by (rule fold_update_other)
    with True Cons.prems show ?thesis by simp
  next
    case False
    with Cons.prems have "x \<in> set ys" "distinct (map f ys)" by auto
    moreover from Cons.prems have "f x < length (vs[f y := g y])" by simp
    ultimately show ?thesis using Cons.IH by simp
  qed
qed

lemma row_major_inj:
  fixes c :: nat
  assumes "j < c" "j' < c" "i * c + j = i' * c + j'"
  shows "i = i' \<and> j = j'"
proof -
  from assms(1) have "(i * c + j) div c = i" by simp
  moreover from assms(2) have "(i' * c + j') div c = i'" by simp
  ultimately have "i = i'" using assms(3) by simp
  with assms(3) show ?thesis by simp
qed

lemma row_major_bound:
  fixes c :: nat
  assumes "i < r" "j < c"
  shows "i * c + j < r * c"
proof -
  from assms have "i * c + j < i * c + c" by simp
  also have "\<dots> = Suc i * c" by simp
  also from assms have "\<dots> \<le> r * c" by (intro mult_le_mono1) simp
  finally show ?thesis .
qed

section \<open>Transpose: dimensions, entries, involution\<close>

lemma transpose_index_distinct:
  "distinct (map (\<lambda>(i, j). j * r + i) (List.product [0..<r] [0..<c]))"
proof -
  have "inj_on (\<lambda>(i, j). j * r + i) (set (List.product [0..<r] [0..<c]))"
    by (auto simp: inj_on_def dest: row_major_inj)
  then show ?thesis by (simp add: distinct_map distinct_product)
qed

lemma get_transpose_dims:
  "rows (get_transpose m) = cols m" "cols (get_transpose m) = rows m"
  "length (vals (get_transpose m)) = cols m * rows m"
  by (simp_all add: get_transpose_def create_matrix_def Let_def fold_nested_product
      case_prod_unfold length_fold_update)

lemma get_transpose_elem:
  assumes "i < rows m" "j < cols m"
  shows "elem (get_transpose m) j i = elem m i j"
proof -
  let ?f = "\<lambda>(i, j). j * rows m + i"
  let ?g = "\<lambda>(i, j). vals m ! (i * cols m + j)"
  let ?xs = "List.product [0..<rows m] [0..<cols m]"
  have v: "vals (get_transpose m) =
        fold (\<lambda>x vs. vs[?f x := ?g x]) ?xs (replicate (cols m * rows m) 0)"
    by (simp add: get_transpose_def create_matrix_def Let_def fold_nested_product
        case_prod_unfold)
  have "(i, j) \<in> set ?xs" using assms by simp
  moreover have "?f (i, j) < length (replicate (cols m * rows m) (0::'a))"
    using row_major_bound [OF assms(2) assms(1)] by simp
  ultimately have "fold (\<lambda>x vs. vs[?f x := ?g x]) ?xs (replicate (cols m * rows m) 0) ! ?f (i, j)
      = ?g (i, j)"
    using transpose_index_distinct [of "rows m" "cols m"] by (rule_tac fold_update_nth)
  then show ?thesis by (simp add: v elem_def get_transpose_dims)
qed

lemma get_transpose_involution:
  assumes "length (vals m) = rows m * cols m"
  shows "get_transpose (get_transpose m) = m"
proof -
  let ?t = "get_transpose m"
  have "vals (get_transpose ?t) = vals m"
  proof (rule nth_equalityI)
    show "length (vals (get_transpose ?t)) = length (vals m)"
      using assms by (simp add: get_transpose_dims)
  next
    fix k assume "k < length (vals (get_transpose ?t))"
    then have k: "k < rows m * cols m" by (simp add: get_transpose_dims)
    then have c: "0 < cols m" by (cases "cols m") simp_all
    define i j where "i = k div cols m" and "j = k mod cols m"
    from c have j: "j < cols m" by (simp add: j_def)
    from k c have i: "i < rows m" by (simp add: i_def less_mult_imp_div_less)
    have kk: "k = i * cols m + j" by (simp add: i_def j_def)
    have "elem (get_transpose ?t) i j = elem ?t j i"
      using i j by (intro get_transpose_elem) (simp_all add: get_transpose_dims)
    also have "\<dots> = elem m i j" using i j by (rule get_transpose_elem)
    finally show "vals (get_transpose ?t) ! k = vals m ! k"
      by (simp add: elem_def get_transpose_dims kk)
  qed
  then show ?thesis by (simp add: matrix.equality get_transpose_dims)
qed

text \<open>
  Claim C6. For every matrix \<open>A\<close> satisfying the data model's invariant, square or
  not, \<^verbatim>\<open>get_transpose\<close> returns a matrix (the function has no failure path: its
  result type is a matrix, not an error sum) with dimensions \<open>(cols A, rows A)\<close>
  that satisfies the invariant again, with \<open>result[j,i] = A[i,j]\<close> for all valid
  \<open>i, j\<close>; and transposing twice gives \<open>A\<close> back, as a whole value and hence
  element-wise.
\<close>

theorem get_transpose_correct:
  assumes "wf_matrix A"
  shows "rows (get_transpose A) = cols A \<and> cols (get_transpose A) = rows A \<and>
         wf_matrix (get_transpose A) \<and>
         (\<forall>i<rows A. \<forall>j<cols A. elem (get_transpose A) j i = elem A i j) \<and>
         get_transpose (get_transpose A) = A"
proof -
  from assms have len: "length (vals A) = rows A * cols A"
    by (simp add: wf_matrix_def)
  from assms have "wf_matrix (get_transpose A)"
    by (simp add: wf_matrix_def get_transpose_dims)
  moreover have "get_transpose (get_transpose A) = A"
    using len by (rule get_transpose_involution)
  ultimately show ?thesis
    by (simp add: get_transpose_dims get_transpose_elem)
qed

theorem get_transpose_correct_witness:
  "wf_matrix \<lparr>rows = 2, cols = 3, vals = [1, 2, 3, 4, 5, 6 :: int]\<rparr> \<and>
   get_transpose \<lparr>rows = 2, cols = 3, vals = [1, 2, 3, 4, 5, 6 :: int]\<rparr> =
     \<lparr>rows = 3, cols = 2, vals = [1, 4, 2, 5, 3, 6]\<rparr> \<and>
   get_transpose (get_transpose \<lparr>rows = 2, cols = 3, vals = [1, 2, 3, 4, 5, 6 :: int]\<rparr>) =
     \<lparr>rows = 2, cols = 3, vals = [1, 2, 3, 4, 5, 6]\<rparr>"
proof -
  have h: "wf_matrix \<lparr>rows = 2, cols = 3, vals = [1, 2, 3, 4, 5, 6 :: int]\<rparr>"
    by (simp add: wf_matrix_def)
  have e: "get_transpose \<lparr>rows = 2, cols = 3, vals = [1, 2, 3, 4, 5, 6 :: int]\<rparr> =
     \<lparr>rows = 3, cols = 2, vals = [1, 4, 2, 5, 3, 6]\<rparr>"
    by code_simp
  from get_transpose_correct [OF h] h e show ?thesis by simp
qed

section \<open>Product: dimensions, entries, and where the shapes are checked\<close>

lemma fold_reset_accumulator:
  "fold (\<lambda>x p. (0, (snd p)[f x := F x (fst p)])) xs (0, vs) =
   (0, fold (\<lambda>x vs. vs[f x := F x 0]) xs vs)"
  by (induction xs arbitrary: vs) simp_all

lemma fold_add_accumulate:
  "fold (\<lambda>j s. s + t j) js s0 = foldl (+) s0 (map t js)"
  by (induction js arbitrary: s0) simp_all

lemma row_major_index_distinct:
  "distinct (map (\<lambda>(i, j). i * c + j) (List.product [0..<r] [0..<c]))"
proof -
  have "inj_on (\<lambda>(i, j). i * c + j) (set (List.product [0..<r] [0..<c]))"
    by (auto simp: inj_on_def dest: row_major_inj)
  then show ?thesis by (simp add: distinct_map distinct_product)
qed

lemma get_product_vals:
  "vals (get_product a b) =
     fold (\<lambda>x vs. vs[(\<lambda>(k, i). k * cols b + i) x :=
            (\<lambda>(k, i). accumulate (map (\<lambda>j. elem a k j * elem b j i) [0..<cols a])) x])
       (List.product [0..<rows a] [0..<cols b]) (replicate (rows a * cols b) 0)"
proof -
  have "fold (\<lambda>k. fold (\<lambda>i (sum, vs).
                 let sum' = fold (\<lambda>j sum. sum + vals a ! (k * cols a + j)
                                               * vals b ! (j * cols b + i))
                                 [0..<cols a] sum
                 in (0, vs[k * cols b + i := sum']))
               [0..<cols b]) [0..<rows a] (0, vs) =
     fold (\<lambda>x (s, vs). (0, vs[(\<lambda>(k, i). k * cols b + i) x :=
            (\<lambda>(k, i) s. foldl (+) s (map (\<lambda>j. elem a k j * elem b j i) [0..<cols a])) x s]))
       (List.product [0..<rows a] [0..<cols b]) (0, vs)" for vs :: "'a list"
    by (simp add: fold_nested_product fold_add_accumulate elem_def case_prod_unfold Let_def)
  then show ?thesis
    by (simp add: get_product_def create_matrix_def Let_def accumulate_def case_prod_unfold
        fold_reset_accumulator [where f = "\<lambda>x. fst x * cols b + snd x"
          and F = "\<lambda>x s. foldl (+) s (map (\<lambda>j. elem a (fst x) j * elem b j (snd x)) [0..<cols a])"])
qed

lemma get_product_dims:
  "rows (get_product a b) = rows a" "cols (get_product a b) = cols b"
  "length (vals (get_product a b)) = rows a * cols b"
  unfolding get_product_vals
  by (simp_all add: get_product_def create_matrix_def Let_def length_fold_update)

lemma get_product_elem:
  assumes "k < rows a" "i < cols b"
  shows "elem (get_product a b) k i =
         accumulate (map (\<lambda>j. elem a k j * elem b j i) [0..<cols a])"
proof -
  have "(k, i) \<in> set (List.product [0..<rows a] [0..<cols b])" using assms by simp
  moreover have "(\<lambda>(k, i). k * cols b + i) (k, i) < length (replicate (rows a * cols b) (0::'a))"
    using row_major_bound [OF assms] by simp
  ultimately show ?thesis
    unfolding elem_def get_product_vals get_product_dims
    using fold_update_nth [OF row_major_index_distinct [of "cols b" "rows a"], of "(k, i)"
        "replicate (rows a * cols b) (0::'a)"]
    by simp
qed

text \<open>
  Claim C3, as stated, fails on the code: \<^verbatim>\<open>get_product\<close> itself checks nothing. For
  the well-formed operands \<open>A = [[2]]\<close> (1 by 1) and \<open>B = [[3],[4]]\<close> (2 by 1)
  the shared dimension does not match, every array read of the loops is in range,
  and \<^verbatim>\<open>get_product\<close> returns the 1 by 1 matrix \<open>[[6]]\<close>; called through
  \<^verbatim>\<open>product\<close>, the operands are swapped and a product is returned as well.
\<close>

theorem get_product_unchecked_counterexample:
  "wf_matrix \<lparr>rows = 1, cols = 1, vals = [2 :: int]\<rparr> \<and>
   wf_matrix \<lparr>rows = 2, cols = 1, vals = [3, 4 :: int]\<rparr> \<and>
   cols \<lparr>rows = 1, cols = 1, vals = [2 :: int]\<rparr> \<noteq> rows \<lparr>rows = 2, cols = 1, vals = [3, 4 :: int]\<rparr> \<and>
   get_product \<lparr>rows = 1, cols = 1, vals = [2 :: int]\<rparr> \<lparr>rows = 2, cols = 1, vals = [3, 4]\<rparr> =
     \<lparr>rows = 1, cols = 1, vals = [6]\<rparr> \<and>
   product \<lparr>rows = 1, cols = 1, vals = [2 :: int]\<rparr> \<lparr>rows = 2, cols = 1, vals = [3, 4]\<rparr> =
     Inr (True, \<lparr>rows = 2, cols = 1, vals = [6, 8]\<rparr>)"
  by code_simp

text \<open>
  Claim C3, amended. The shape check is made by the caller \<^verbatim>\<open>product\<close>, not by
  \<^verbatim>\<open>get_product\<close>: \<^verbatim>\<open>product\<close> fails with \<^verbatim>\<open>INVALID_MATRIX\<close> exactly when neither
  \<open>A.cols = B.rows\<close> nor \<open>B.cols = A.rows\<close>, multiplies in the swapped order when only
  the swapped order is compatible, and otherwise calls \<^verbatim>\<open>get_product A B\<close>. Whenever
  \<open>A.cols = B.rows\<close>, the result of \<^verbatim>\<open>get_product A B\<close> has dimensions
  \<open>(A.rows, B.cols)\<close>, satisfies the invariant, and its entry \<open>[k,i]\<close> is the sum over
  \<open>j\<close> in \<open>[0, A.cols)\<close> of \<open>A[k,j] * B[j,i]\<close>, accumulated from \<open>0\<close> in increasing \<open>j\<close>.
\<close>

theorem product_checked_by_caller:
  fixes A B :: "('a::{zero,plus,times}) matrix"
  assumes "wf_matrix A" "wf_matrix B"
  shows "(cols A \<noteq> rows B \<and> cols B \<noteq> rows A \<longrightarrow>
            (\<exists>msg. product A B = Inl (Invalid_matrix msg))) \<and>
         (cols A \<noteq> rows B \<and> cols B = rows A \<longrightarrow>
            product A B = Inr (True, get_product B A)) \<and>
         (cols A = rows B \<longrightarrow>
            product A B = Inr (False, get_product A B) \<and>
            rows (get_product A B) = rows A \<and> cols (get_product A B) = cols B \<and>
            wf_matrix (get_product A B) \<and>
            (\<forall>k<rows A. \<forall>i<cols B.
               elem (get_product A B) k i =
               accumulate (map (\<lambda>j. elem A k j * elem B j i) [0..<cols A])))"
proof -
  from assms have "wf_matrix (get_product A B)"
    by (simp add: wf_matrix_def get_product_dims)
  then show ?thesis
    by (simp add: product_def get_product_dims get_product_elem)
qed

theorem product_checked_by_caller_witness:
  "wf_matrix \<lparr>rows = 2, cols = 2, vals = [1, 2, 3, 4 :: int]\<rparr> \<and>
   wf_matrix \<lparr>rows = 2, cols = 1, vals = [5, 6 :: int]\<rparr> \<and>
   product \<lparr>rows = 2, cols = 2, vals = [1, 2, 3, 4 :: int]\<rparr> \<lparr>rows = 2, cols = 1, vals = [5, 6]\<rparr> =
     Inr (False, \<lparr>rows = 2, cols = 1, vals = [17, 39]\<rparr>) \<and>
   elem (get_product \<lparr>rows = 2, cols = 2, vals = [1, 2, 3, 4 :: int]\<rparr>
           \<lparr>rows = 2, cols = 1, vals = [5, 6]\<rparr>) 1 0 = 39"
proof -
  let ?A = "\<lparr>rows = 2, cols = 2, vals = [1, 2, 3, 4 :: int]\<rparr>"
  let ?B = "\<lparr>rows = 2, cols = 1, vals = [5, 6 :: int]\<rparr>"
  have a: "wf_matrix ?A" and b: "wf_matrix ?B" by (simp_all add: wf_matrix_def)
  from product_checked_by_caller [OF a b]
  have "product ?A ?B = Inr (False, get_product ?A ?B)"
    and "elem (get_product ?A ?B) 1 0 =
         accumulate (map (\<lambda>j. elem ?A 1 j * elem ?B j 0) [0..<cols ?A])"
    by simp_all
  moreover have "get_product ?A ?B = \<lparr>rows = 2, cols = 1, vals = [17, 39]\<rparr>"
    by code_simp
  moreover have "accumulate (map (\<lambda>j. elem ?A 1 j * elem ?B j 0) [0..<cols ?A]) = 39"
    by code_simp
  ultimately show ?thesis using a b by simp
qed

section \<open>Determinant: the loops build minors, the recursion expands along the first row\<close>

lemma seq_write:
  "k0 + length xs \<le> length vs \<Longrightarrow>
   fold (\<lambda>x (k, vs). (k + 1, vs[k := g x])) xs (k0, vs) =
   (k0 + length xs, take k0 vs @ map g xs @ drop (k0 + length xs) vs)"
proof (induction xs arbitrary: k0 vs)
  case Nil
  then show ?case by simp
next
  case (Cons x xs)
  from Cons.prems have k: "k0 < length vs" by simp
  from Cons.prems have "Suc k0 + length xs \<le> length (vs[k0 := g x])" by simp
  from Cons.IH [OF this]
  have "fold (\<lambda>x (k, vs). (k + 1, vs[k := g x])) xs (Suc k0, vs[k0 := g x]) =
        (Suc k0 + length xs,
         take (Suc k0) (vs[k0 := g x]) @ map g xs @ drop (Suc k0 + length xs) (vs[k0 := g x]))"
    by simp
  moreover have "take (Suc k0) (vs[k0 := g x]) = take k0 vs @ [g x]"
    using k by (simp add: take_Suc_conv_app_nth)
  ultimately show ?case by simp
qed

lemma seq_write_all:
  assumes "length xs = length vs"
  shows "snd (fold (\<lambda>x (k, vs). (k + 1, vs[k := g x])) xs (0, vs)) = map g xs"
  using seq_write [of 0 xs vs g] assms by simp

lemma guarded_write_loops:
  "fold (\<lambda>i. fold (\<lambda>j (k, vs). if P i j then (k + 1, vs[k := g i j]) else (k, vs)) js) is s =
   fold (\<lambda>x (k, vs). (k + 1, vs[k := (\<lambda>(i, j). g i j) x]))
     (filter (\<lambda>(i, j). P i j) (List.product is js)) s"
proof -
  have "(\<lambda>(i, j) (k, vs). if P i j then (k + 1, vs[k := g i j]) else (k, vs)) =
        (\<lambda>x. if (\<lambda>(i, j). P i j) x then (\<lambda>(k, vs). (k + 1, vs[k := (\<lambda>(i, j). g i j) x])) else id)"
    by (auto simp: fun_eq_iff)
  then show ?thesis
    by (simp only: fold_nested_product fold_filter)
qed

lemma filter_product:
  "filter (\<lambda>(i, j). Q j \<and> R i) (List.product is js) =
   List.product (filter R is) (filter Q js)"
  by (induction "is") (simp_all add: filter_map comp_def)

lemma map_product_concat:
  "map (\<lambda>(i, j). g i j) (List.product is js) = concat (map (\<lambda>i. map (g i) js) is)"
  by (induction "is") simp_all

lemma length_filter_neq_upt:
  "j < n \<Longrightarrow> length (filter (\<lambda>c. c \<noteq> j) [0..<n]) = n - 1"
proof -
  assume "j < n"
  have "filter (\<lambda>c. c \<noteq> j) [0..<n] = removeAll j [0..<n]"
    by (induction n) simp_all
  also have "\<dots> = remove1 j [0..<n]" by (simp add: distinct_remove1_removeAll)
  finally show ?thesis using \<open>j < n\<close> by (simp add: length_remove1)
qed

lemma length_minor:
  "i < rows A \<Longrightarrow> j < cols A \<Longrightarrow> length (vals (minor A i j)) = (rows A - 1) * (cols A - 1)"
  by (simp add: minor_def length_concat comp_def sum_list_triv length_filter_neq_upt)

lemma minor_loops:
  assumes "i < rows A" "j < cols A" "length buf = (rows A - 1) * (cols A - 1)"
  shows "snd (fold (\<lambda>m'. fold (\<lambda>n (k, mv).
                    if n \<noteq> j \<and> m' \<noteq> i
                    then (k + 1, mv[k := vals A ! (m' * cols A + n)])
                    else (k, mv))
                  [0..<cols A])
              [0..<rows A] (0, buf)) = vals (minor A i j)"
proof -
  let ?xs = "filter (\<lambda>(m', n). n \<noteq> j \<and> m' \<noteq> i) (List.product [0..<rows A] [0..<cols A])"
  have m: "map (\<lambda>(m', n). vals A ! (m' * cols A + n)) ?xs = vals (minor A i j)"
    by (simp only: filter_product map_product_concat) (simp add: minor_def elem_def)
  then have "length ?xs = length buf"
    using length_minor [OF assms(1,2)] assms(3) by (metis length_map)
  then show ?thesis
    by (simp only: guarded_write_loops seq_write_all m)
qed

lemma filter_product_snd:
  "filter (\<lambda>(i, j). Q j) (List.product is js) = List.product is (filter Q js)"
  by (induction "is") (simp_all add: filter_map comp_def)

lemma upt_from_1:
  "[1..<n] = filter (\<lambda>r. r \<noteq> 0) [0..<n]"
  by (induction n) auto

lemma first_row_minor_loops:
  assumes "0 < rows A" "c < cols A" "length buf = (rows A - 1) * (cols A - 1)"
  shows "snd (fold (\<lambda>i. fold (\<lambda>j (k, vs).
                    if j \<noteq> c then (k + 1, vs[k := vals A ! (i * cols A + j)])
                    else (k, vs))
                  [0..<cols A])
              [1..<rows A] (0, buf)) = vals (minor A 0 c)"
proof -
  let ?xs = "filter (\<lambda>(i, j). j \<noteq> c) (List.product [1..<rows A] [0..<cols A])"
  have m: "map (\<lambda>(i, j). vals A ! (i * cols A + j)) ?xs = vals (minor A 0 c)"
    by (simp only: filter_product_snd map_product_concat minor_def elem_def matrix.simps
        upt_from_1)
  then have "length ?xs = length buf"
    using length_minor [OF assms(1,2)] assms(3) by (metis length_map)
  then show ?thesis
    by (simp only: guarded_write_loops seq_write_all m)
qed

lemma minor_dims:
  "rows (minor A i j) = rows A - 1" "cols (minor A i j) = cols A - 1"
  by (simp_all add: minor_def)

lemma minor_eq:
  "r = rows A - 1 \<Longrightarrow> c = cols A - 1 \<Longrightarrow>
   \<lparr>rows = r, cols = c, vals = vals (minor A i j)\<rparr> = minor A i j"
  by (simp add: minor_def)

lemma find_det_2:
  "rows A = 2 \<Longrightarrow> cols A = 2 \<Longrightarrow>
   find_det A = elem A 0 0 * elem A 1 1 - elem A 0 1 * elem A 1 0"
  by (subst find_det.simps) (simp add: elem_def)

lemma find_det_expansion:
  fixes A :: "('a::{zero,plus,minus,uminus,power}) matrix"
  assumes "0 < rows A" "rows A \<noteq> 2"
  shows "find_det A =
         accumulate (map (\<lambda>c. (- 1) ^ c * elem A 0 c * find_det (minor A 0 c)) [0..<cols A])"
proof -
  define L where "L = (rows A - 1) * (cols A - 1)"
  define fill :: "nat \<Rightarrow> 'a list \<Rightarrow> 'a list" where
    "fill top_row sub_vals = snd
       (fold (\<lambda>i. fold (\<lambda>j (k, vs).
                if j \<noteq> top_row then (k + 1, vs[k := vals A ! (i * cols A + j)])
                else (k, vs))
              [0..<cols A])
          [1..<rows A] (0, sub_vals))" for top_row sub_vals
  define F :: "nat \<Rightarrow> 'a list \<times> 'a \<Rightarrow> 'a list \<times> 'a" where
    "F = (\<lambda>top_row (sub_vals, det).
        (fill top_row sub_vals,
         det + (- 1) ^ top_row * vals A ! top_row
               * find_det \<lparr>rows = rows A - 1, cols = cols A - 1,
                            vals = fill top_row sub_vals\<rparr>))"
  have fill: "fill c buf = vals (minor A 0 c)" if "c < cols A" "length buf = L" for c buf
    using assms(1) that unfolding fill_def L_def by (rule first_row_minor_loops)
  have step: "F c (buf, d) =
      (vals (minor A 0 c), d + (- 1) ^ c * elem A 0 c * find_det (minor A 0 c))"
    if "c < cols A" "length buf = L" for c buf d
    by (simp add: F_def fill [OF that] minor_eq elem_def)
  have loop: "snd (fold F cs (buf, d)) =
      foldl (+) d (map (\<lambda>c. (- 1) ^ c * elem A 0 c * find_det (minor A 0 c)) cs)"
    if "\<forall>c\<in>set cs. c < cols A" "length buf = L" for cs buf d
    using that
  proof (induction cs arbitrary: buf d)
    case Nil
    show ?case by simp
  next
    case (Cons c cs)
    from Cons.prems have c: "c < cols A" and cs: "\<forall>c\<in>set cs. c < cols A" by simp_all
    have "length (vals (minor A 0 c)) = L"
      unfolding L_def using assms(1) c by (rule length_minor)
    with cs show ?case by (simp add: step [OF c Cons.prems(2)] Cons.IH)
  qed
  have "find_det A = snd (fold F [0..<cols A] (replicate L 0, 0))"
    by (subst find_det.simps)
       (simp add: assms(2) F_def fill_def L_def create_matrix_def Let_def del: upt.simps)
  then show ?thesis
    by (simp add: loop accumulate_def)
qed

lemma wf_minor:
  assumes "length (vals A) = rows A * cols A" "2 \<le> rows A" "2 \<le> cols A"
    "i < rows A" "j < cols A"
  shows "wf_matrix (minor A i j)"
  using assms by (auto simp: wf_matrix_def minor_dims length_minor)

text \<open>
  Claim C1. For every square matrix \<open>A\<close> satisfying the invariant,
  \<^verbatim>\<open>get_determinant\<close> returns the single element when \<open>A\<close> is 1 by 1,
  \<open>a00*a11 - a01*a10\<close> when \<open>A\<close> is 2 by 2, and for \<open>n > 2\<close> the sum over the columns
  \<open>c\<close> in \<open>[0, n)\<close> of \<open>(-1)^c * A[0,c]\<close> times the determinant of the minor obtained
  by deleting row \<open>0\<close> and column \<open>c\<close>, which is a square matrix of \<open>n - 1\<close> rows
  satisfying the invariant. The sum is accumulated from \<open>0\<close> in increasing \<open>c\<close>.
\<close>

theorem get_determinant_first_row_expansion:
  fixes A :: "('a::{zero,plus,minus,uminus,power}) matrix"
  assumes "wf_matrix A" "square A"
  shows "(rows A = 1 \<longrightarrow> get_determinant A = elem A 0 0) \<and>
         (rows A = 2 \<longrightarrow>
            get_determinant A = elem A 0 0 * elem A 1 1 - elem A 0 1 * elem A 1 0) \<and>
         (2 < rows A \<longrightarrow>
            get_determinant A =
              accumulate (map (\<lambda>c. (- 1) ^ c * elem A 0 c * get_determinant (minor A 0 c))
                              [0..<rows A]) \<and>
            (\<forall>c<rows A. wf_matrix (minor A 0 c) \<and> square (minor A 0 c) \<and>
                         rows (minor A 0 c) = rows A - 1))"
proof (intro conjI impI)
  assume "rows A = 1"
  then show "get_determinant A = elem A 0 0"
    by (simp add: get_determinant_def elem_def)
next
  assume "rows A = 2"
  with assms(2) show "get_determinant A = elem A 0 0 * elem A 1 1 - elem A 0 1 * elem A 1 0"
    by (simp add: get_determinant_def square_def find_det_2)
next
  assume n: "2 < rows A"
  have "get_determinant (minor A 0 c) = find_det (minor A 0 c)" for c
    using n by (auto simp: get_determinant_def minor_dims)
  moreover have "get_determinant A = find_det A"
    using n by (simp add: get_determinant_def)
  moreover have "find_det A =
      accumulate (map (\<lambda>c. (- 1) ^ c * elem A 0 c * find_det (minor A 0 c)) [0..<cols A])"
    using n by (intro find_det_expansion) simp_all
  ultimately show "get_determinant A =
      accumulate (map (\<lambda>c. (- 1) ^ c * elem A 0 c * get_determinant (minor A 0 c))
                      [0..<rows A])"
    using assms(2) by (simp add: square_def)
next
  assume n: "2 < rows A"
  show "\<forall>c<rows A. wf_matrix (minor A 0 c) \<and> square (minor A 0 c) \<and>
                    rows (minor A 0 c) = rows A - 1"
  proof (intro allI impI)
    fix c assume "c < rows A"
    with assms n have "wf_matrix (minor A 0 c)"
      by (intro wf_minor) (simp_all add: wf_matrix_def square_def)
    with assms(2) show "wf_matrix (minor A 0 c) \<and> square (minor A 0 c) \<and>
                    rows (minor A 0 c) = rows A - 1"
      by (simp add: square_def minor_dims)
  qed
qed

theorem get_determinant_first_row_expansion_witness:
  "wf_matrix \<lparr>rows = 3, cols = 3, vals = [1, 2, 3, 4, 5, 6, 7, 8, 10 :: int]\<rparr> \<and>
   square \<lparr>rows = 3, cols = 3, vals = [1, 2, 3, 4, 5, 6, 7, 8, 10 :: int]\<rparr> \<and>
   minor \<lparr>rows = 3, cols = 3, vals = [1, 2, 3, 4, 5, 6, 7, 8, 10 :: int]\<rparr> 0 1 =
     \<lparr>rows = 2, cols = 2, vals = [4, 6, 7, 10]\<rparr> \<and>
   get_determinant \<lparr>rows = 3, cols = 3, vals = [1, 2, 3, 4, 5, 6, 7, 8, 10 :: int]\<rparr> = - 3"
proof -
  let ?A = "\<lparr>rows = 3, cols = 3, vals = [1, 2, 3, 4, 5, 6, 7, 8, 10 :: int]\<rparr>"
  have w: "wf_matrix ?A" and q: "square ?A" by (simp_all add: wf_matrix_def square_def)
  have m: "minor ?A 0 1 = \<lparr>rows = 2, cols = 2, vals = [4, 6, 7, 10]\<rparr>" by code_simp
  have m0: "get_determinant (minor ?A 0 0) = 2" by code_simp
  have m1: "get_determinant (minor ?A 0 (Suc 0)) = - 2" by code_simp
  have m2: "get_determinant (minor ?A 0 2) = - 3" by code_simp
  have u: "[0..<3] = [0, 1, 2]" by code_simp
  from get_determinant_first_row_expansion [OF w q]
  have "get_determinant ?A =
      accumulate (map (\<lambda>c. (- 1) ^ c * elem ?A 0 c * get_determinant (minor ?A 0 c))
                      [0..<rows ?A])"
    by simp
  also have "\<dots> = - 3"
    by (simp add: u m0 m1 m2 accumulate_def elem_def)
  finally show ?thesis using w q m by simp
qed

section \<open>Cofactors, adjoint and inverse: entries\<close>

lemma find_cofactor_dims:
  "rows (find_cofactor A) = rows A" "cols (find_cofactor A) = cols A"
  "length (vals (find_cofactor A)) = rows A * cols A"
  by (simp_all add: find_cofactor_def create_matrix_def Let_def fold_nested_product
      case_prod_unfold length_fold_update)

lemma find_cofactor_elem:
  fixes A :: "('a::{zero,plus,minus,uminus,power}) matrix"
  assumes "i < rows A" "j < cols A"
  shows "elem (find_cofactor A) i j = (- 1) ^ (i + j) * get_determinant (minor A i j)"
proof -
  define fill :: "nat \<Rightarrow> nat \<Rightarrow> 'a list" where
    "fill = (\<lambda>i j. snd
       (fold (\<lambda>m'. fold (\<lambda>n (k, mv).
                if n \<noteq> j \<and> m' \<noteq> i
                then (k + 1, mv[k := vals A ! (m' * cols A + n)])
                else (k, mv))
              [0..<cols A])
          [0..<rows A] (0, replicate ((rows A - 1) * (cols A - 1)) 0)))"
  define g :: "nat \<times> nat \<Rightarrow> 'a" where
    "g = (\<lambda>(i, j). (- 1) ^ (i + j) *
            get_determinant \<lparr>rows = rows A - 1, cols = cols A - 1, vals = fill i j\<rparr>)"
  define f :: "nat \<times> nat \<Rightarrow> nat" where "f = (\<lambda>(i, j). i * cols A + j)"
  let ?xs = "List.product [0..<rows A] [0..<cols A]"
  have v: "vals (find_cofactor A) =
      fold (\<lambda>x vs. vs[f x := g x]) ?xs (replicate (rows A * cols A) 0)"
    by (simp add: find_cofactor_def create_matrix_def Let_def fold_nested_product
        case_prod_unfold f_def g_def fill_def)
  have "fill i j = vals (minor A i j)"
    unfolding fill_def using assms by (intro minor_loops) simp_all
  then have g: "g (i, j) = (- 1) ^ (i + j) * get_determinant (minor A i j)"
    by (simp add: g_def minor_eq)
  have "distinct (map f ?xs)"
    unfolding f_def by (rule row_major_index_distinct)
  moreover have "(i, j) \<in> set ?xs" using assms by simp
  moreover have "f (i, j) < length (replicate (rows A * cols A) (0::'a))"
    using row_major_bound [OF assms] by (simp add: f_def)
  ultimately have "fold (\<lambda>x vs. vs[f x := g x]) ?xs (replicate (rows A * cols A) 0) ! f (i, j)
      = g (i, j)"
    by (rule fold_update_nth)
  then show ?thesis
    by (simp add: elem_def v g find_cofactor_dims) (simp add: f_def)
qed

lemma get_adjoint_1:
  "rows A = 1 \<Longrightarrow> cols A = 1 \<Longrightarrow> get_adjoint A = \<lparr>rows = 1, cols = 1, vals = [1]\<rparr>"
  by (simp add: get_adjoint_def create_matrix_def)

lemma get_inverse_vals:
  fixes A :: "('a::{zero,plus,minus,uminus,power,inverse}) matrix"
  assumes "get_determinant A \<noteq> 0"
  shows "\<exists>M. get_inverse A = Inr M \<and> rows M = rows A \<and> cols M = cols A \<and>
             length (vals M) = rows A * cols A \<and>
             (\<forall>i<rows A. \<forall>j<cols A.
                elem M i j = elem (get_adjoint A) i j / get_determinant A)"
proof -
  define f :: "nat \<times> nat \<Rightarrow> nat" where "f = (\<lambda>(i, j). i * cols A + j)"
  define g :: "nat \<times> nat \<Rightarrow> 'a" where
    "g = (\<lambda>(i, j). vals (get_adjoint A) ! (i * cols (get_adjoint A) + j) / get_determinant A)"
  let ?xs = "List.product [0..<rows A] [0..<cols A]"
  define M :: "'a matrix" where
    "M = \<lparr>rows = rows A, cols = cols A,
          vals = fold (\<lambda>x vs. vs[f x := g x]) ?xs (replicate (rows A * cols A) 0)\<rparr>"
  have inv: "get_inverse A = Inr M"
    using assms
    by (simp add: get_inverse_def create_matrix_def Let_def fold_nested_product
        case_prod_unfold f_def g_def M_def)
  have "elem M i j = elem (get_adjoint A) i j / get_determinant A"
    if "i < rows A" "j < cols A" for i j
  proof -
    have "distinct (map f ?xs)"
      unfolding f_def by (rule row_major_index_distinct)
    moreover have "(i, j) \<in> set ?xs" using that by simp
    moreover have "f (i, j) < length (replicate (rows A * cols A) (0::'a))"
      using row_major_bound [OF that] by (simp add: f_def)
    ultimately have "fold (\<lambda>x vs. vs[f x := g x]) ?xs (replicate (rows A * cols A) 0) ! f (i, j)
        = g (i, j)"
      by (rule fold_update_nth)
    then show ?thesis
      by (simp add: elem_def M_def) (simp add: f_def g_def)
  qed
  moreover have "length (vals M) = rows A * cols A"
    by (simp add: M_def length_fold_update)
  ultimately show ?thesis using inv by (simp add: M_def)
qed

text \<open>
  Claim C5. For every square matrix \<open>A\<close> satisfying the invariant, \<^verbatim>\<open>get_adjoint\<close>
  returns the 1 by 1 matrix holding \<open>1\<close> when \<open>A\<close> is 1 by 1, and otherwise the
  transpose of the cofactor matrix: the cofactor matrix has the dimensions of \<open>A\<close>
  and entry \<open>(i, j)\<close> equal to \<open>(-1)^(i+j)\<close> times the determinant of the minor formed
  by deleting row \<open>i\<close> and column \<open>j\<close>, and that value is entry \<open>(j, i)\<close> of the
  adjoint.
\<close>

theorem get_adjoint_transposed_cofactors:
  fixes A :: "('a::{zero,plus,minus,uminus,power}) matrix"
  assumes "wf_matrix A" "square A"
  shows "(rows A = 1 \<longrightarrow> get_adjoint A = \<lparr>rows = 1, cols = 1, vals = [1]\<rparr>) \<and>
         (1 < rows A \<longrightarrow>
            get_adjoint A = get_transpose (find_cofactor A) \<and>
            rows (find_cofactor A) = rows A \<and> cols (find_cofactor A) = cols A \<and>
            wf_matrix (find_cofactor A) \<and>
            (\<forall>i<rows A. \<forall>j<cols A.
               elem (find_cofactor A) i j = (- 1) ^ (i + j) * get_determinant (minor A i j) \<and>
               elem (get_adjoint A) j i = elem (find_cofactor A) i j))"
proof (intro conjI impI allI)
  assume "rows A = 1"
  with assms(2) show "get_adjoint A = \<lparr>rows = 1, cols = 1, vals = [1]\<rparr>"
    by (simp add: square_def get_adjoint_1)
next
  assume "1 < rows A"
  then show adj: "get_adjoint A = get_transpose (find_cofactor A)"
    by (simp add: get_adjoint_def)
  show "rows (find_cofactor A) = rows A" "cols (find_cofactor A) = cols A"
    by (simp_all add: find_cofactor_dims)
  from assms(1) show "wf_matrix (find_cofactor A)"
    by (simp add: wf_matrix_def find_cofactor_dims)
  fix i j assume ij: "i < rows A" "j < cols A"
  then show "elem (find_cofactor A) i j = (- 1) ^ (i + j) * get_determinant (minor A i j)"
    by (rule find_cofactor_elem)
  from ij show "elem (get_adjoint A) j i = elem (find_cofactor A) i j"
    unfolding adj by (intro get_transpose_elem) (simp_all add: find_cofactor_dims)
qed

theorem get_adjoint_transposed_cofactors_witness:
  "wf_matrix \<lparr>rows = 2, cols = 2, vals = [1, 2, 3, 4 :: int]\<rparr> \<and>
   square \<lparr>rows = 2, cols = 2, vals = [1, 2, 3, 4 :: int]\<rparr> \<and>
   find_cofactor \<lparr>rows = 2, cols = 2, vals = [1, 2, 3, 4 :: int]\<rparr> =
     \<lparr>rows = 2, cols = 2, vals = [4, - 3, - 2, 1]\<rparr> \<and>
   get_adjoint \<lparr>rows = 2, cols = 2, vals = [1, 2, 3, 4 :: int]\<rparr> =
     \<lparr>rows = 2, cols = 2, vals = [4, - 2, - 3, 1]\<rparr>"
proof -
  let ?A = "\<lparr>rows = 2, cols = 2, vals = [1, 2, 3, 4 :: int]\<rparr>"
  have w: "wf_matrix ?A" and q: "square ?A" by (simp_all add: wf_matrix_def square_def)
  have c: "find_cofactor ?A = \<lparr>rows = 2, cols = 2, vals = [4, - 3, - 2, 1]\<rparr>"
    by code_simp
  have t: "get_transpose \<lparr>rows = 2, cols = 2, vals = [4, - 3, - 2, 1 :: int]\<rparr> =
      \<lparr>rows = 2, cols = 2, vals = [4, - 2, - 3, 1]\<rparr>"
    by code_simp
  from get_adjoint_transposed_cofactors [OF w q]
  have "get_adjoint ?A = get_transpose (find_cofactor ?A)" by simp
  with c t w q show ?thesis by simp
qed

text \<open>
  Claim C2. For every square matrix \<open>A\<close> satisfying the invariant, \<^verbatim>\<open>get_inverse\<close>
  fails exactly when \<^verbatim>\<open>get_determinant\<close> returns \<open>0\<close>; the failure is the exit with
  \<^verbatim>\<open>INVALID_MATRIX\<close> and the message that the determinant is 0, made before any
  division. When the determinant is not \<open>0\<close> the result is a matrix of the
  dimensions of \<open>A\<close> each of whose entries is the corresponding entry of
  \<^verbatim>\<open>get_adjoint\<close> divided by the determinant.
\<close>

theorem get_inverse_singular_or_adjoint_over_det:
  fixes A :: "('a::{zero,plus,minus,uminus,power,inverse}) matrix"
  assumes "wf_matrix A" "square A"
  shows "((\<exists>e. get_inverse A = Inl e) \<longleftrightarrow> get_determinant A = 0) \<and>
         (get_determinant A = 0 \<longrightarrow>
            get_inverse A = Inl (Invalid_matrix
              ''The determinant is 0, so the inverse of the matrix could not be found.'')) \<and>
         (\<forall>e. get_inverse A = Inl e \<longrightarrow> exit_code e = Some INVALID_MATRIX) \<and>
         (get_determinant A \<noteq> 0 \<longrightarrow>
            (\<exists>M. get_inverse A = Inr M \<and> rows M = rows A \<and> cols M = cols A \<and>
                 wf_matrix M \<and>
                 (\<forall>i<rows A. \<forall>j<cols A.
                    elem M i j = elem (get_adjoint A) i j / get_determinant A)))"
proof (cases "get_determinant A = 0")
  case True
  then show ?thesis by (simp add: get_inverse_def)
next
  case False
  from get_inverse_vals [OF False] obtain M where
    M: "get_inverse A = Inr M" "rows M = rows A" "cols M = cols A"
       "length (vals M) = rows A * cols A"
       "\<forall>i<rows A. \<forall>j<cols A. elem M i j = elem (get_adjoint A) i j / get_determinant A"
    by blast
  from assms(1) M(2,3,4) have "wf_matrix M" by (simp add: wf_matrix_def)
  with False M show ?thesis by simp
qed

theorem get_inverse_singular_or_adjoint_over_det_witness:
  "wf_matrix \<lparr>rows = 2, cols = 2, vals = [2, 0, 1, 4 :: rat]\<rparr> \<and>
   square \<lparr>rows = 2, cols = 2, vals = [2, 0, 1, 4 :: rat]\<rparr> \<and>
   get_determinant \<lparr>rows = 2, cols = 2, vals = [2, 0, 1, 4 :: rat]\<rparr> = 8 \<and>
   get_inverse \<lparr>rows = 2, cols = 2, vals = [2, 0, 1, 4 :: rat]\<rparr> =
     Inr \<lparr>rows = 2, cols = 2, vals = [1 / 2, 0, - 1 / 8, 1 / 4]\<rparr> \<and>
   get_inverse \<lparr>rows = 2, cols = 2, vals = [1, 2, 2, 4 :: rat]\<rparr> =
     Inl (Invalid_matrix ''The determinant is 0, so the inverse of the matrix could not be found.'')"
proof -
  let ?A = "\<lparr>rows = 2, cols = 2, vals = [2, 0, 1, 4 :: rat]\<rparr>"
  let ?S = "\<lparr>rows = 2, cols = 2, vals = [1, 2, 2, 4 :: rat]\<rparr>"
  have w: "wf_matrix ?A" and q: "square ?A" by (simp_all add: wf_matrix_def square_def)
  have ws: "wf_matrix ?S" and qs: "square ?S" by (simp_all add: wf_matrix_def square_def)
  have d: "get_determinant ?A = 8" by code_simp
  have ds: "get_determinant ?S = 0" by code_simp
  have i: "get_inverse ?A = Inr \<lparr>rows = 2, cols = 2, vals = [1 / 2, 0, - 1 / 8, 1 / 4]\<rparr>"
    by code_simp
  from get_inverse_singular_or_adjoint_over_det [OF ws qs] ds
  have "get_inverse ?S =
      Inl (Invalid_matrix ''The determinant is 0, so the inverse of the matrix could not be found.'')"
    by simp
  with w q d i show ?thesis by simp
qed

section \<open>The line reader\<close>

lemma read_line_eof:
  "fgets MAX_LINE_LENGTH (file' c) = None \<Longrightarrow>
   read_line c = exit_invalid_file (c\<lparr>line_number := line_number c + 1\<rparr>) []"
  by (subst read_line.simps) simp

lemma read_line_skip:
  "fgets MAX_LINE_LENGTH (file' c) = Some (line, rest) \<Longrightarrow>
   strtok (c_string line) TOKEN_SEPARATORS = (tok, save) \<Longrightarrow>
   tok = None \<or> (\<exists>t. tok = Some t \<and> take 1 t = ''#'') \<Longrightarrow>
   read_line c =
   read_line (c\<lparr>line_number := line_number c + 1, file' := rest, token := tok,
                strtok_save := save\<rparr>)"
  by (subst read_line.simps) (auto simp: Let_def)

lemma read_line_token:
  "fgets MAX_LINE_LENGTH (file' c) = Some (line, rest) \<Longrightarrow>
   strtok (c_string line) TOKEN_SEPARATORS = (Some t, save) \<Longrightarrow>
   take 1 t \<noteq> ''#'' \<Longrightarrow>
   read_line c =
   Inr (t, c\<lparr>line_number := line_number c + 1, file' := rest, token := Some t,
                strtok_save := save\<rparr>)"
  by (subst read_line.simps) (simp add: Let_def)

section \<open>The parser on given texts, and its diagnostics\<close>

text \<open>Unfolding the definitions evaluates the parser on a given text.\<close>

lemmas parser_defs = read_matrix_def read_line.simps read_rows_cols_def read_array_def
  read_file_end_def get_new_token_def get_int_def get_double_def exit_invalid_file_def
  create_matrix_def

lemmas libc_defs = fgets_def MAX_LINE_LENGTH_def MAX_ROWS_COLS_def TOKEN_SEPARATORS_def
  c_string_def strtok_def strtol_def strtod_def take_sign_def isspace_def isdigit_def
  isxdigit_def isalpha_def tolower_def xdigit_val_def digits_val_def scale_def
  exponent_part_def mantissa_def decimal_float_def hex_float_def infinity_word_def
  nan_word_def

lemma upt_numeral_evals: "[0..<1] = [0]" "[0..<2] = [0, 1]" "[0..<3] = [0, 1, 2]"
  by (simp_all add: upt_rec numeral_eq_Suc)

lemma replicate_numeral_evals:
  "replicate 1 x = [x]" "replicate 3 x = [x, x, x]" "replicate 4 x = [x, x, x, x]"
  by (simp_all add: numeral_eq_Suc)

lemma list_update_Cons_numeral:
  "(x # xs)[numeral k := v] = x # xs[pred_numeral k := v]"
  by (simp add: numeral_eq_Suc)

lemmas eval_simps = parser_defs libc_defs upt_numeral_evals replicate_numeral_evals
  list_update_Cons_numeral

lemma fgets_chars_replicate:
  "c \<noteq> CHR 0x0A \<Longrightarrow> n \<le> k \<Longrightarrow>
   fgets_chars n (replicate k c @ s) = (replicate n c, replicate (k - n) c @ s)"
proof (induction k arbitrary: n)
  case 0
  then show ?case by (cases s) simp_all
next
  case (Suc k)
  show ?case
  proof (cases n)
    case 0
    then show ?thesis by simp
  next
    case (Suc n')
    with Suc.prems have "n' \<le> k" by simp
    from Suc.IH [OF Suc.prems(1) this] Suc Suc.prems(1) show ?thesis by simp
  qed
qed

lemma strtok_blank:
  "set s \<subseteq> set TOKEN_SEPARATORS \<Longrightarrow> strtok (c_string s) TOKEN_SEPARATORS = (None, [])"
proof -
  assume a: "set s \<subseteq> set TOKEN_SEPARATORS"
  have "set (c_string s) \<subseteq> set s"
    unfolding c_string_def by (auto dest: set_takeWhileD)
  with a have "dropWhile (\<lambda>c. c \<in> set TOKEN_SEPARATORS) (c_string s) = []"
    by (auto simp: dropWhile_eq_Nil_conv)
  then show ?thesis by (simp add: strtok_def)
qed

lemma read_line_overlong_blank:
  assumes "file' c = replicate 40001 (CHR '' '') @ CHR 0x0A # rest"
  shows "read_line c =
         read_line (c\<lparr>line_number := line_number c + 2, file' := rest, token := None,
                      strtok_save := []\<rparr>)"
proof -
  let ?c1 = "c\<lparr>line_number := line_number c + 1,
               file' := replicate 2 (CHR '' '') @ CHR 0x0A # rest,
               token := None, strtok_save := []\<rparr>"
  have "fgets_chars 39999 (replicate 40001 (CHR '' '') @ CHR 0x0A # rest) =
        (replicate 39999 (CHR '' ''), replicate (40001 - 39999) (CHR '' '') @ CHR 0x0A # rest)"
    by (rule fgets_chars_replicate) simp_all
  then have f1: "fgets MAX_LINE_LENGTH (file' c) =
      Some (replicate 39999 (CHR '' ''), replicate 2 (CHR '' '') @ CHR 0x0A # rest)"
    unfolding assms fgets_def MAX_LINE_LENGTH_def
    by (simp del: replicate.simps)
  have s1: "strtok (c_string (replicate 39999 (CHR '' ''))) TOKEN_SEPARATORS = (None, [])"
    by (rule strtok_blank) (simp add: TOKEN_SEPARATORS_def)
  have r1: "read_line c = read_line ?c1"
    using read_line_skip [OF f1 s1] by simp
  have f2: "fgets MAX_LINE_LENGTH (file' ?c1) = Some (''  \<newline>'', rest)"
    by (simp add: fgets_def MAX_LINE_LENGTH_def numeral_eq_Suc [of "Num.Bit0 Num.One"])
  have s2: "strtok (c_string ''  \<newline>'') TOKEN_SEPARATORS = (None, [])"
    by (rule strtok_blank) (simp add: TOKEN_SEPARATORS_def)
  have "read_line ?c1 = read_line (?c1\<lparr>line_number := line_number ?c1 + 1, file' := rest,
      token := None, strtok_save := []\<rparr>)"
    using read_line_skip [OF f2 s2] by simp
  also have "?c1\<lparr>line_number := line_number ?c1 + 1, file' := rest,
      token := None, strtok_save := []\<rparr> =
      c\<lparr>line_number := line_number c + 2, file' := rest, token := None,
                      strtok_save := []\<rparr>"
    by simp
  finally show ?thesis using r1 by simp
qed

text \<open>
  Claim C7. Parsing the text \<open>matrix 2 2 / 1 2 / 3 4 / end\<close> (each line ended by a
  newline) succeeds with \<open>rows = 2\<close>, \<open>cols = 2\<close> and the row-major values
  \<open>[1, 2, 3, 4]\<close>, under whatever name the file system holds the text and whatever
  the uninitialised fields of the context contain.
\<close>

theorem read_matrix_two_by_two:
  assumes "fs name = Some ''matrix 2 2\<newline>1 2\<newline>3 4\<newline>end\<newline>''"
  shows "read_matrix fs name uninit =
         Inr \<lparr>rows = 2, cols = 2, vals = [Finite 1, Finite 2, Finite 3, Finite 4]\<rparr>"
  using assms by (simp add: eval_simps)

theorem read_matrix_two_by_two_witness:
  "[''a.txt'' \<mapsto> ''matrix 2 2\<newline>1 2\<newline>3 4\<newline>end\<newline>''] ''a.txt'' =
     Some ''matrix 2 2\<newline>1 2\<newline>3 4\<newline>end\<newline>'' \<and>
   read_matrix [''a.txt'' \<mapsto> ''matrix 2 2\<newline>1 2\<newline>3 4\<newline>end\<newline>''] ''a.txt''
     \<lparr>file' = [], file_name = [], token = None, line_number = 0, strtok_save = []\<rparr> =
   Inr \<lparr>rows = 2, cols = 2, vals = [Finite 1, Finite 2, Finite 3, Finite 4]\<rparr>"
proof -
  have h: "[''a.txt'' \<mapsto> ''matrix 2 2\<newline>1 2\<newline>3 4\<newline>end\<newline>''] ''a.txt'' =
     Some ''matrix 2 2\<newline>1 2\<newline>3 4\<newline>end\<newline>''"
    by simp
  from read_matrix_two_by_two
    [of "[''a.txt'' \<mapsto> ''matrix 2 2\<newline>1 2\<newline>3 4\<newline>end\<newline>'']" "''a.txt''", OF h] h
  show ?thesis by blast
qed

text \<open>
  Claim C10. \<^verbatim>\<open>get_double\<close> accepts a token exactly when \<^verbatim>\<open>strtod\<close> consumes all of
  it, and returns the value \<^verbatim>\<open>strtod\<close> delivers. With \<^verbatim>\<open>strtod\<close> as the C standard
  describes it, the tokens \<open>inf\<close>, \<open>nan\<close> and \<open>0x1p3\<close> are accepted, as an
  infinity, a NaN and the number 8, and a file holding them as its elements parses.
\<close>

theorem get_double_accepts_what_strtod_consumes:
  "(get_double t m c = Inr v \<longleftrightarrow> strtod t = (v, [])) \<and>
   get_double ''inf'' m c = Inr PlusInfinity \<and>
   get_double ''nan'' m c = Inr NaN \<and>
   get_double ''0x1p3'' m c = Inr (Finite 8) \<and>
   (fs name = Some ''matrix 1 3\<newline>inf nan 0x1p3\<newline>end\<newline>'' \<longrightarrow>
      read_matrix fs name uninit =
      Inr \<lparr>rows = 1, cols = 3, vals = [PlusInfinity, NaN, Finite 8]\<rparr>)"
proof (intro conjI impI)
  show "get_double t m c = Inr v \<longleftrightarrow> strtod t = (v, [])"
    by (cases "strtod t") (auto simp: get_double_def exit_invalid_file_def)
  show "get_double ''inf'' m c = Inr PlusInfinity"
    by (simp add: get_double_def libc_defs)
  show "get_double ''nan'' m c = Inr NaN"
    by (simp add: get_double_def libc_defs)
  show "get_double ''0x1p3'' m c = Inr (Finite 8)"
    by (simp add: get_double_def libc_defs)
  assume "fs name = Some ''matrix 1 3\<newline>inf nan 0x1p3\<newline>end\<newline>''"
  then show "read_matrix fs name uninit =
      Inr \<lparr>rows = 1, cols = 3, vals = [PlusInfinity, NaN, Finite 8]\<rparr>"
    by (simp add: eval_simps)
qed

theorem get_double_accepts_what_strtod_consumes_witness:
  "strtod ''1e-12'' = (Finite (1 / 10 ^ 12), []) \<and>
   get_double ''1e-12'' \<lparr>rows = 1, cols = 1, vals = [0]\<rparr>
     \<lparr>file' = [], file_name = [], token = None, line_number = 0, strtok_save = []\<rparr> =
     Inr (Finite (1 / 10 ^ 12)) \<and>
   read_matrix [''b.txt'' \<mapsto> ''matrix 1 3\<newline>inf nan 0x1p3\<newline>end\<newline>''] ''b.txt''
     \<lparr>file' = [], file_name = [], token = None, line_number = 0, strtok_save = []\<rparr> =
   Inr \<lparr>rows = 1, cols = 3, vals = [PlusInfinity, NaN, Finite 8]\<rparr>"
proof -
  let ?fs = "[''b.txt'' \<mapsto> ''matrix 1 3\<newline>inf nan 0x1p3\<newline>end\<newline>'']"
  let ?u = "\<lparr>file' = [], file_name = [], token = None, line_number = 0, strtok_save = []\<rparr>"
  have h: "?fs ''b.txt'' = Some ''matrix 1 3\<newline>inf nan 0x1p3\<newline>end\<newline>''" by simp
  have s: "strtod ''1e-12'' = (Finite (1 / 10 ^ 12), [])" by (simp add: libc_defs)
  note t = get_double_accepts_what_strtod_consumes
    [of "''1e-12''" "\<lparr>rows = 1, cols = 1, vals = [0]\<rparr>" ?u "Finite (1 / 10 ^ 12)" ?fs "''b.txt''" ?u]
  from t s h show ?thesis by blast
qed

lemma fgets_chars_prefix:
  "c \<noteq> CHR 0x0A \<Longrightarrow> fgets_chars n s = (l, r) \<Longrightarrow>
   fgets_chars (k + n) (replicate k c @ s) = (replicate k c @ l, r)"
  by (induction k) simp_all

lemma strtok_after_blanks:
  assumes "strtok (c_string s) TOKEN_SEPARATORS = res" "CHR 0x00 \<notin> set s"
  shows "strtok (c_string (replicate k (CHR '' '') @ s)) TOKEN_SEPARATORS = res"
proof -
  have "c_string (replicate k (CHR '' '') @ s) = replicate k (CHR '' '') @ s"
    using assms(2) unfolding c_string_def by (intro takeWhile_eq_all_conv [THEN iffD2]) auto
  moreover have "c_string s = s"
    using assms(2) unfolding c_string_def by (intro takeWhile_eq_all_conv [THEN iffD2]) auto
  moreover have "dropWhile (\<lambda>c. c \<in> set TOKEN_SEPARATORS) (replicate k (CHR '' '') @ s)
      = dropWhile (\<lambda>c. c \<in> set TOKEN_SEPARATORS) s"
    by (rule dropWhile_append2) (simp add: TOKEN_SEPARATORS_def)
  ultimately show ?thesis using assms(1) by (simp add: strtok_def)
qed

lemma read_line_split_row:
  "read_line \<lparr>file' = replicate 39998 (CHR '' '') @ ''12  \<newline>end\<newline>'', file_name = n,
              token = t, line_number = l, strtok_save = s\<rparr> =
   Inr (''1'', \<lparr>file' = ''2  \<newline>end\<newline>'', file_name = n, token = Some ''1'',
                 line_number = l + 1, strtok_save = []\<rparr>)"
proof -
  let ?c = "\<lparr>file' = replicate 39998 (CHR '' '') @ ''12  \<newline>end\<newline>'', file_name = n,
              token = t, line_number = l, strtok_save = s\<rparr>"
  have "fgets_chars 1 ''12  \<newline>end\<newline>'' = (''1'', ''2  \<newline>end\<newline>'')" by simp
  then have "fgets_chars (39998 + 1) (replicate 39998 (CHR '' '') @ ''12  \<newline>end\<newline>'') =
      (replicate 39998 (CHR '' '') @ ''1'', ''2  \<newline>end\<newline>'')"
    by (intro fgets_chars_prefix) simp_all
  then have f: "fgets MAX_LINE_LENGTH (file' ?c) =
      Some (replicate 39998 (CHR '' '') @ ''1'', ''2  \<newline>end\<newline>'')"
    by (simp add: fgets_def MAX_LINE_LENGTH_def del: replicate.simps)
  have "strtok (c_string ''1'') TOKEN_SEPARATORS = (Some ''1'', [])"
    by (simp add: strtok_def c_string_def TOKEN_SEPARATORS_def)
  then have k: "strtok (c_string (replicate 39998 (CHR '' '') @ ''1'')) TOKEN_SEPARATORS =
      (Some ''1'', [])"
    by (rule strtok_after_blanks) simp
  from read_line_token [OF f k] show ?thesis by simp
qed

text \<open>
  Claim C8 fails on the code. The comment in \<^verbatim>\<open>read_line\<close> expects \<^verbatim>\<open>fgets\<close> to
  return the null pointer for a line that is too long, and the program to exit.
  \<^verbatim>\<open>fgets\<close> does not: it returns the first \<open>MAX_LINE_LENGTH - 1\<close> characters of the
  line and leaves the rest to the next call, so a long line is read as several
  lines and no failure is raised for its length. In the first source a line of
  40001 spaces is read as two blank lines and parsing succeeds. In the second
  source the only data row is 39998 spaces, the number \<open>12\<close> and two spaces: it is
  read as a row holding \<open>1\<close> and a row holding \<open>2\<close>, and parsing succeeds with the
  2 by 1 matrix of \<open>1\<close> and \<open>2\<close>.
\<close>

theorem overlong_line_is_split_and_parsed:
  "MAX_LINE_LENGTH < length (replicate 40001 (CHR '' '')) \<and>
   read_matrix [''c.txt'' \<mapsto> replicate 40001 (CHR '' '') @ ''\<newline>matrix 1 1\<newline>1\<newline>end\<newline>'']
     ''c.txt''
     \<lparr>file' = [], file_name = [], token = None, line_number = 0, strtok_save = []\<rparr> =
   Inr \<lparr>rows = 1, cols = 1, vals = [Finite 1]\<rparr> \<and>
   MAX_LINE_LENGTH < length (replicate 39998 (CHR '' '') @ ''12  '') \<and>
   read_matrix
     [''r.txt'' \<mapsto> ''matrix 2 1\<newline>'' @ replicate 39998 (CHR '' '') @ ''12  \<newline>end\<newline>'']
     ''r.txt''
     \<lparr>file' = [], file_name = [], token = None, line_number = 0, strtok_save = []\<rparr> =
   Inr \<lparr>rows = 2, cols = 1, vals = [Finite 1, Finite 2]\<rparr>"
proof -
  let ?src = "replicate 40001 (CHR '' '') @ ''\<newline>matrix 1 1\<newline>1\<newline>end\<newline>''"
  let ?row = "''matrix 2 1\<newline>'' @ replicate 39998 (CHR '' '') @ ''12  \<newline>end\<newline>''"
  let ?u = "\<lparr>file' = [], file_name = [], token = None, line_number = 0, strtok_save = []\<rparr>"
  have long: "MAX_LINE_LENGTH < length (replicate 40001 (CHR '' ''))"
    "MAX_LINE_LENGTH < length (replicate 39998 (CHR '' '') @ ''12  '')"
    by (simp_all add: MAX_LINE_LENGTH_def)
  have skip: "read_line (?u\<lparr>file' := ?src, file_name := ''c.txt''\<rparr>) =
      read_line \<lparr>file' = ''matrix 1 1\<newline>1\<newline>end\<newline>'', file_name = ''c.txt'',
                  token = None, line_number = 2, strtok_save = []\<rparr>"
    by (subst read_line_overlong_blank [where rest = "''matrix 1 1\<newline>1\<newline>end\<newline>''"])
       simp_all
  define K :: "failure + string \<times> Context \<Rightarrow> failure + double matrix" where
    "K = (\<lambda>res.
       (case res of Inl e \<Rightarrow> Inl e | Inr (tok, c1) \<Rightarrow>
       (case read_rows_cols tok c1 of Inl e \<Rightarrow> Inl e | Inr (r, n, c2) \<Rightarrow>
       (case read_array (create_matrix r n) c2 of Inl e \<Rightarrow> Inl e | Inr (matrix, c3) \<Rightarrow>
       (case read_file_end matrix c3 of Inl e \<Rightarrow> Inl e | Inr c4 \<Rightarrow> Inr matrix)))))"
  have "read_matrix [''c.txt'' \<mapsto> ?src] ''c.txt'' ?u =
      K (read_line (?u\<lparr>file' := ?src, file_name := ''c.txt''\<rparr>))"
    by (simp add: read_matrix_def K_def del: replicate.simps)
  also have "\<dots> = K (read_line \<lparr>file' = ''matrix 1 1\<newline>1\<newline>end\<newline>'',
      file_name = ''c.txt'', token = None, line_number = 2, strtok_save = []\<rparr>)"
    by (simp only: skip)
  also have "\<dots> = Inr \<lparr>rows = 1, cols = 1, vals = [Finite 1]\<rparr>"
    by (simp add: K_def eval_simps)
  finally have blank: "read_matrix [''c.txt'' \<mapsto> ?src] ''c.txt'' ?u =
      Inr \<lparr>rows = 1, cols = 1, vals = [Finite 1]\<rparr>" .
  have header: "read_matrix [''r.txt'' \<mapsto> ?row] ''r.txt'' ?u =
      (case read_array (create_matrix 2 1)
              \<lparr>file' = replicate 39998 (CHR '' '') @ ''12  \<newline>end\<newline>'', file_name = ''r.txt'',
                token = None, line_number = 1, strtok_save = []\<rparr> of
         Inl e \<Rightarrow> Inl e
       | Inr (matrix, c3) \<Rightarrow>
           (case read_file_end matrix c3 of Inl e \<Rightarrow> Inl e | Inr c4 \<Rightarrow> Inr matrix))"
    by (simp add: read_matrix_def read_line.simps read_rows_cols_def get_new_token_def
          get_int_def exit_invalid_file_def libc_defs del: replicate.simps)
  have rows: "read_array (create_matrix 2 1)
      \<lparr>file' = replicate 39998 (CHR '' '') @ ''12  \<newline>end\<newline>'', file_name = ''r.txt'',
        token = None, line_number = 1, strtok_save = []\<rparr> =
      Inr (\<lparr>rows = 2, cols = 1, vals = [Finite 1, Finite 2]\<rparr>,
           \<lparr>file' = ''end\<newline>'', file_name = ''r.txt'', token = None, line_number = 3,
             strtok_save = []\<rparr>)"
    apply (simp add: read_array_def read_line_split_row create_matrix_def get_new_token_def
          get_double_def exit_invalid_file_def libc_defs upt_numeral_evals
          replicate_numeral_evals list_update_Cons_numeral del: replicate.simps)
    apply (simp add: eval_simps numeral_2_eq_2)
    done
  have "read_matrix [''r.txt'' \<mapsto> ?row] ''r.txt'' ?u =
      Inr \<lparr>rows = 2, cols = 1, vals = [Finite 1, Finite 2]\<rparr>"
    unfolding header rows by (simp add: eval_simps)
  with long blank show ?thesis by (intro conjI)
qed


text \<open>
  Claim C9 fails on the code, in two ways that the code itself shows to be slips.
  \<^item> \<^verbatim>\<open>read_rows_cols\<close> hands the result of \<^verbatim>\<open>get_new_token\<close> to \<^verbatim>\<open>get_int\<close>, and so to
    \<^verbatim>\<open>strtol\<close>, without looking at it, although \<^verbatim>\<open>read_array\<close> compares the same result
    with the null pointer and reports a missing element. A source that stops after
    the keyword \<open>matrix\<close> makes the program read through the null pointer: no
    diagnostic is printed, and no exit code of the program is returned.
  \<^item> \<^verbatim>\<open>read_matrix\<close> never sets the line number of its context, so the line that a
    diagnostic reports is the line of the source plus whatever the field held. The
    \<open>x\<close> on line 3 of the third source is reported on line
    \<open>line_number uninit + 3\<close>.
  By design, besides, the exit of a first token other than \<open>matrix\<close> passes an
  empty description.
\<close>

theorem missing_dimension_is_not_diagnosed:
  "read_matrix [''n.txt'' \<mapsto> ''matrix\<newline>''] ''n.txt'' uninit = Inl Null_dereference \<and>
   exit_code Null_dereference = None \<and>
   read_matrix [''m.txt'' \<mapsto> ''matrix 1 2\<newline>1\<newline>end\<newline>''] ''m.txt'' uninit =
     Inl (Invalid_file ''m.txt'' ''Number of stated columns does not match file.''
            (line_number uninit + 2) None) \<and>
   read_matrix [''g.txt'' \<mapsto> ''matrix 2 2\<newline>1 2\<newline>3 x\<newline>end\<newline>''] ''g.txt'' uninit =
     Inl (Invalid_file ''g.txt'' ''Matrix element is invalid.''
            (line_number uninit + 3) (Some ''x'')) \<and>
   read_matrix [''g.txt'' \<mapsto> ''matrix 2 2\<newline>1 2\<newline>3 x\<newline>end\<newline>''] ''g.txt''
     \<lparr>file' = [], file_name = [], token = None, line_number = 41, strtok_save = []\<rparr> =
     Inl (Invalid_file ''g.txt'' ''Matrix element is invalid.'' 44 (Some ''x'')) \<and>
   read_matrix [''d.txt'' \<mapsto> ''foo 2 2\<newline>1 2\<newline>3 4\<newline>end\<newline>''] ''d.txt'' uninit =
     Inl (Invalid_file ''d.txt'' [] (line_number uninit + 1) (Some ''foo''))"
  by (simp add: eval_simps)


section \<open>Expansion along any row, and the sum of a row against the cofactors of another\<close>



lemma unskip_skip [simp]: "unskip c (skip c d) = d"
  by (simp add: skip_def unskip_def)









section \<open>Finite results of the arithmetic of \<^verbatim>\<open>double\<close> are exact\<close>












section \<open>The entries of a minor\<close>




section \<open>The determinant of a matrix of \<^verbatim>\<open>double\<close>, when it is finite\<close>



section \<open>The product of a matrix and its inverse\<close>








end
